theory Spec2Isabelle
  imports Main
begin

section \<open>The response-generation orchestrator (\<open>runAutonomousAgent\<close>)\<close>

text \<open>
  A shallow embedding of the autonomous agent handler: the retry controller
  \<open>generateContentStreamWithRetry\<close>, the relay adapter \<open>streamOpenRouter\<close>, the directive
  scan of the SIMPLE handler and the bounded re-routing loop of \<open>runAutonomousAgent\<close>.

  Conventions of the model.
  \<^item> Strings are \<open>string\<close>; a character is one code unit below 256.
  \<^item> A thrown value is an \<open>error\<close> (name, message, optional HTTP status); a function that
    may throw returns \<open>error + 'a\<close> together with the state reached when it threw.
  \<^item> The collaborators that are not part of the handler (classifier, memory, research,
    providers, image synthesis, canvas agent, file readers, URL parser, error texts) are
    the fields of a \<open>world\<close>. Each is an arbitrary function of its arguments and of the
    \<open>tick\<close> at which it is called, so repeated calls may answer differently. Each call
    returns (no collaborator hangs) and every stream is finite.
  \<^item> The streaming sink \<open>onStreamChunk\<close> is the list \<open>sink\<close> of the texts it received, in
    order; \<open>setTimeout\<close> waits are the list \<open>delays\<close> (milliseconds).
  \<^item> The cancellation signal becomes aborted at tick \<open>signal\<close> (never, for \<open>None\<close>) and
    stays aborted; every read of \<open>signal.aborted\<close> and every collaborator call advances
    the tick by one.
  \<^item> \<open>trace\<close> records the collaborator calls and the reads of the signal that found it
    aborted at the top of the loop or inside a chunk-read loop. It is not a variable of
    the source; no function of the model reads it.
\<close>

subsection \<open>Strings\<close>

definition str_startsWith :: "string \<Rightarrow> string \<Rightarrow> bool" where
  "str_startsWith s p = (take (length p) s = p)"

definition str_endsWith :: "string \<Rightarrow> string \<Rightarrow> bool" where
  "str_endsWith s p = (length p \<le> length s \<and> drop (length s - length p) s = p)"

fun str_includes :: "string \<Rightarrow> string \<Rightarrow> bool" where
  "str_includes [] p = (p = [])"
| "str_includes (x # xs) p = (str_startsWith (x # xs) p \<or> str_includes xs p)"

definition is_space :: "char \<Rightarrow> bool" where
  "is_space c = (c \<in> set [CHR 0x09, CHR 0x0A, CHR 0x0B, CHR 0x0C, CHR 0x0D, CHR 0x20, CHR 0xA0])"

definition is_line_terminator :: "char \<Rightarrow> bool" where
  "is_line_terminator c = (c = CHR 0x0A \<or> c = CHR 0x0D)"

definition str_trim :: "string \<Rightarrow> string" where
  "str_trim s = rev (dropWhile is_space (rev (dropWhile is_space s)))"

abbreviation nl :: string where
  "nl \<equiv> [CHR 0x0A]"

abbreviation dquote :: string where
  "dquote \<equiv> [CHR 0x22]"

text \<open>\<open>s.replace(p, '')\<close> for a non-empty string \<open>p\<close>: the first occurrence is removed.\<close>

fun str_remove_first :: "string \<Rightarrow> string \<Rightarrow> string" where
  "str_remove_first p [] = []"
| "str_remove_first p (x # xs) =
     (if str_startsWith (x # xs) p then drop (length p) (x # xs) else x # str_remove_first p xs)"

text \<open>\<open>s.split(c)\<close> for a one-character separator.\<close>

fun str_split :: "char \<Rightarrow> string \<Rightarrow> string list" where
  "str_split c [] = [[]]"
| "str_split c (x # xs) =
     (case str_split c xs of
        [] \<Rightarrow> [[x]]
      | y # ys \<Rightarrow> if x = c then [] # y # ys else (x # y) # ys)"

definition digit_char :: "nat \<Rightarrow> char" where
  "digit_char d = ''0123456789'' ! d"

function string_of_nat :: "nat \<Rightarrow> string" where
  "string_of_nat n = (if n < 10 then [digit_char n] else string_of_nat (n div 10) @ [digit_char (n mod 10)])"
  by pat_completeness auto
termination
  by (relation "measure id") auto

declare string_of_nat.simps [simp del]

subsection \<open>Data\<close>

record error =
  err_name :: string
  err_message :: string
  err_status :: "nat option"

definition Error :: "string \<Rightarrow> error" where
  "Error msg = \<lparr>err_name = ''Error'', err_message = msg, err_status = None\<rparr>"

definition TypeError :: "string \<Rightarrow> error" where
  "TypeError msg = \<lparr>err_name = ''TypeError'', err_message = msg, err_status = None\<rparr>"

datatype RouterAction = SIMPLE | SEARCH | DEEP_SEARCH | THINK | IMAGE | PROJECT | STUDY | CANVAS

datatype ThinkingMode = Fast | Think | Deep | Instant

record grounding =
  web_uri :: string
  web_title :: string

record chunk =
  chunk_text :: string
  chunk_groundingChunks :: "grounding list option"

type_synonym stream = "chunk list \<times> error option"

record message =
  msg_sender :: string
  msg_text :: string

record attachment =
  file_name :: string
  file_type :: string

record profile =
  preferred_deep_model :: "string option"
  preferred_image_model :: "string option"
  openrouter_api_key :: "string option"

datatype part = Text string | InlineData "string option" string

record content =
  role :: string
  parts :: "part list"
  content_text :: string

datatype contents = Plain string | Turns "content list"

record gen_params =
  gp_model :: string
  gp_contents :: contents
  gp_systemInstruction :: "string option"
  gp_googleSearch :: bool
  gp_thinkingBudget :: "nat option"
  gp_responseMimeType :: "string option"

record routing =
  action :: RouterAction
  parameters :: "(string \<times> string) list"

record research_result =
  answer :: string
  sources :: "string list"

record relay_error_data =
  error_message :: "string option"
  error_code :: "nat option"

record relay_response =
  resp_ok :: bool
  resp_status :: nat
  resp_json :: "relay_error_data option"
  resp_text :: string
  resp_body :: "(string list list \<times> error option) option"

record turn =
  project_id :: string
  chat_id :: string
  turn_sender :: string
  turn_text :: string
  image_base64 :: "string option"
  groundingMetadata :: "grounding list option"

record AgentExecutionResult =
  messages :: "turn list"

record AgentInput =
  prompt :: string
  files :: "attachment list"
  apiKey :: string
  project :: string
  chat :: string
  history :: "message list"
  user :: string
  profile :: "profile option"
  model :: string
  thinkingMode :: ThinkingMode
  signal :: "nat option"

datatype outcome = Continue | Return AgentExecutionResult | Throw error

datatype generator =
    NativeGen stream
  | RelayGen "string option" string "(string \<times> string) list" string

datatype event =
    FreeCompletionCall
  | FileReadCall string
  | RouteCall string
  | MemoryCall
  | ResearchCall string
  | ThinkingCountCall
  | NativeStreamCall string
  | NativeContentCall string
  | ImageCall string
  | CanvasCall string
  | RelayFetch string
  | RelayRead
  | AbortObserved string

record world =
  generateFreeCompletion :: "nat \<Rightarrow> (string \<times> string) list \<Rightarrow> string list \<times> (error + string)"
  readTextFile :: "nat \<Rightarrow> attachment \<Rightarrow> error + string"
  readAsDataURL :: "nat \<Rightarrow> attachment \<Rightarrow> error + string"
  route :: "nat \<Rightarrow> string \<Rightarrow> string \<Rightarrow> string \<Rightarrow> nat \<Rightarrow> error + routing"
  getContext :: "nat \<Rightarrow> error + string"
  deepResearch :: "nat \<Rightarrow> string \<Rightarrow> string list \<times> (error + research_result)"
  incrementThinkingCount :: "nat \<Rightarrow> error option"
  generateContentStream :: "nat \<Rightarrow> gen_params \<Rightarrow> error + stream"
  generateContent :: "nat \<Rightarrow> gen_params \<Rightarrow> error + string"
  generateImage :: "nat \<Rightarrow> string \<Rightarrow> string option \<Rightarrow> error + string"
  runCanvasAgent :: "nat \<Rightarrow> string \<Rightarrow> error + string option list"
  fetchOpenRouter :: "nat \<Rightarrow> string \<Rightarrow> string \<Rightarrow> (string \<times> string) list \<Rightarrow> error + relay_response"
  url_hostname :: "string \<Rightarrow> string option"
  getUserFriendlyError :: "error \<Rightarrow> string"
  autonomousInstruction :: "string \<Rightarrow> string"
  formatTimestamp :: string

record state =
  tick :: nat
  sink :: "string list"
  delays :: "nat list"
  trace :: "event list"
  model_var :: string
  prompt_var :: string
  thinkingBudget :: nat
  isNative :: bool
  openRouterKey :: "string option"
  memoryContext :: string
  baseSystemInstruction :: string
  dateTimeContext :: string
  routing_parameters :: "(string \<times> string) list"
  finalResponseText :: string
  metadataPayload :: "grounding list option"
  fallbackSearchContext :: string
  currentAction :: RouterAction
  currentPrompt :: string

subsection \<open>Effects\<close>

definition emit :: "event \<Rightarrow> state \<Rightarrow> state" where
  "emit e s = s\<lparr>tick := tick s + 1, trace := trace s @ [e]\<rparr>"

definition onStreamChunk :: "string \<Rightarrow> state \<Rightarrow> state" where
  "onStreamChunk t s = s\<lparr>sink := sink s @ [t]\<rparr>"

definition aborted :: "AgentInput \<Rightarrow> state \<Rightarrow> bool" where
  "aborted i s = (case signal i of None \<Rightarrow> False | Some t \<Rightarrow> t \<le> tick s)"

text \<open>
  A read of \<open>signal?.aborted\<close> at the top of the loop or inside a chunk-read loop. A read
  that finds the signal aborted is recorded in the trace, with the text accumulated in
  \<open>finalResponseText\<close> at that moment.
\<close>

definition check_signal :: "AgentInput \<Rightarrow> state \<Rightarrow> bool \<times> state" where
  "check_signal i s =
     (if aborted i s then (True, emit (AbortObserved (finalResponseText s)) s)
      else (False, s\<lparr>tick := tick s + 1\<rparr>))"

fun is_observation :: "event \<Rightarrow> bool" where
  "is_observation (AbortObserved t) = True"
| "is_observation e = False"


subsection \<open>\<open>isGoogleModel\<close>\<close>

definition isGoogleModel :: "string \<Rightarrow> bool" where
  "isGoogleModel m =
     (if m = [] then True
      else str_startsWith m ''gemini'' \<or> str_startsWith m ''veo'' \<or> str_includes m ''google'')"

subsection \<open>The retry controller \<open>generateContentStreamWithRetry\<close>\<close>

definition isQuotaError :: "error \<Rightarrow> bool" where
  "isQuotaError e =
     (err_status e = Some 429 \<or> str_includes (err_message e) ''429''
      \<or> str_includes (err_message e) ''quota'')"

definition backoff_delay :: "nat \<Rightarrow> nat" where
  "backoff_delay attempt = 2 ^ attempt * 2000 + 1000"

definition retry_notice :: "nat \<Rightarrow> string" where
  "retry_notice delay =
     ''(Rate limit hit. Retrying in '' @ string_of_nat ((delay + 500) div 1000) @ ''s...)''"

function retry_loop :: "world \<Rightarrow> gen_params \<Rightarrow> nat \<Rightarrow> nat \<Rightarrow> state \<Rightarrow> (error + stream) \<times> state" where
  "retry_loop w params retries attempt s =
     (if attempt \<le> retries then
        (case generateContentStream w (tick s) params of
           Inr g \<Rightarrow> (Inr g, emit (NativeStreamCall (gp_model params)) s)
         | Inl e \<Rightarrow>
             (if isQuotaError e \<and> attempt < retries then
                retry_loop w params retries (attempt + 1)
                  ((onStreamChunk (retry_notice (backoff_delay attempt))
                      (emit (NativeStreamCall (gp_model params)) s))
                   \<lparr>delays := delays s @ [backoff_delay attempt]\<rparr>)
              else (Inl e, emit (NativeStreamCall (gp_model params)) s)))
      else (Inl (Error ''Max retries exceeded''), s))"
  by pat_completeness auto
termination
  by (relation "measure (\<lambda>(w, params, retries, attempt, s). retries + 1 - attempt)") auto

declare retry_loop.simps [simp del]

definition default_model :: "gen_params \<Rightarrow> gen_params" where
  "default_model params =
     (if gp_model params = [] then params\<lparr>gp_model := ''gemini-2.5-flash''\<rparr> else params)"

definition generateContentStreamWithRetry ::
    "world \<Rightarrow> gen_params \<Rightarrow> nat \<Rightarrow> state \<Rightarrow> (error + stream) \<times> state" where
  "generateContentStreamWithRetry w params retries s =
     retry_loop w (default_model params) retries 0 s"


subsection \<open>Regular expressions\<close>

text \<open>
  The fragment of JavaScript regular expressions that the handler uses, matched by
  backtracking in the order of ECMAScript: a match is tried at each start position from
  the left, alternatives are tried left to right, a greedy quantifier tries the longest
  repetition first and a lazy one the shortest. Quantifiers apply to one-character
  classes. There is at most one capture group. The continuation of a matcher receives
  the rest of the input and the text captured by the group so far.
\<close>

datatype rx =
    Lit string
  | LitCI string
  | Cls "char \<Rightarrow> bool"
  | Star "char \<Rightarrow> bool"
  | Plus "char \<Rightarrow> bool"
  | LazyStar "char \<Rightarrow> bool"
  | Rep nat "char \<Rightarrow> bool"
  | Opt rx
  | Seq rx rx
  | Alt rx rx
  | Group rx

definition ascii_upper :: "char \<Rightarrow> char" where
  "ascii_upper c =
     (case map_of (zip ''abcdefghijklmnopqrstuvwxyz'' ''ABCDEFGHIJKLMNOPQRSTUVWXYZ'') c of
        Some u \<Rightarrow> u | None \<Rightarrow> c)"

definition ci_eq :: "char \<Rightarrow> char \<Rightarrow> bool" where
  "ci_eq c x = (ascii_upper c = ascii_upper x)"

fun match_lit :: "(char \<Rightarrow> char \<Rightarrow> bool) \<Rightarrow> string \<Rightarrow> string \<Rightarrow> string option" where
  "match_lit eq [] s = Some s"
| "match_lit eq (c # cs) [] = None"
| "match_lit eq (c # cs) (x # xs) = (if eq c x then match_lit eq cs xs else None)"

fun rep :: "nat \<Rightarrow> (char \<Rightarrow> bool) \<Rightarrow> string \<Rightarrow> (string \<Rightarrow> 'a option) \<Rightarrow> 'a option" where
  "rep 0 P s k = k s"
| "rep (Suc n) P [] k = None"
| "rep (Suc n) P (x # xs) k = (if P x then rep n P xs k else None)"

fun greedy_star :: "(char \<Rightarrow> bool) \<Rightarrow> string \<Rightarrow> (string \<Rightarrow> 'a option) \<Rightarrow> 'a option" where
  "greedy_star P [] k = k []"
| "greedy_star P (x # xs) k =
     (if P x then (case greedy_star P xs k of Some r \<Rightarrow> Some r | None \<Rightarrow> k (x # xs))
      else k (x # xs))"

fun lazy_star :: "(char \<Rightarrow> bool) \<Rightarrow> string \<Rightarrow> (string \<Rightarrow> 'a option) \<Rightarrow> 'a option" where
  "lazy_star P [] k = k []"
| "lazy_star P (x # xs) k =
     (case k (x # xs) of Some r \<Rightarrow> Some r
      | None \<Rightarrow> if P x then lazy_star P xs k else None)"

fun rx_m :: "rx \<Rightarrow> string \<Rightarrow> string option \<Rightarrow> (string \<Rightarrow> string option \<Rightarrow> 'a option) \<Rightarrow> 'a option" where
  "rx_m (Lit t) s g k = (case match_lit (=) t s of None \<Rightarrow> None | Some s' \<Rightarrow> k s' g)"
| "rx_m (LitCI t) s g k = (case match_lit ci_eq t s of None \<Rightarrow> None | Some s' \<Rightarrow> k s' g)"
| "rx_m (Cls P) s g k = rep 1 P s (\<lambda>s'. k s' g)"
| "rx_m (Star P) s g k = greedy_star P s (\<lambda>s'. k s' g)"
| "rx_m (Plus P) s g k = rep 1 P s (\<lambda>s'. greedy_star P s' (\<lambda>s''. k s'' g))"
| "rx_m (LazyStar P) s g k = lazy_star P s (\<lambda>s'. k s' g)"
| "rx_m (Rep n P) s g k = rep n P s (\<lambda>s'. k s' g)"
| "rx_m (Opt r) s g k = (case rx_m r s g k of Some a \<Rightarrow> Some a | None \<Rightarrow> k s g)"
| "rx_m (Seq r1 r2) s g k = rx_m r1 s g (\<lambda>s' g'. rx_m r2 s' g' k)"
| "rx_m (Alt r1 r2) s g k = (case rx_m r1 s g k of Some a \<Rightarrow> Some a | None \<Rightarrow> rx_m r2 s g k)"
| "rx_m (Group r) s g k = rx_m r s g (\<lambda>s' g'. k s' (Some (take (length s - length s') s)))"

text \<open>
  The result of \<open>str.match(regex)\<close> for a regex without the \<open>g\<close> flag: \<open>None\<close> for
  \<open>null\<close>, otherwise the matched text (\<open>m[0]\<close>) and the capture (\<open>m[1]\<close>, \<open>None\<close> when
  the group took no part or the regex has none).
\<close>

type_synonym rx_result = "string \<times> string option"

definition rx_at :: "rx \<Rightarrow> string \<Rightarrow> rx_result option" where
  "rx_at r s = rx_m r s None (\<lambda>s' g. Some (take (length s - length s') s, g))"

fun str_match :: "string \<Rightarrow> rx \<Rightarrow> rx_result option" where
  "str_match [] r = rx_at r []"
| "str_match (x # xs) r =
     (case rx_at r (x # xs) of Some m \<Rightarrow> Some m | None \<Rightarrow> str_match xs r)"

definition js_or :: "'a option \<Rightarrow> 'a option \<Rightarrow> 'a option" where
  "js_or a b = (case a of Some m \<Rightarrow> Some m | None \<Rightarrow> b)"

definition dot :: "char \<Rightarrow> bool" where
  "dot c = (\<not> is_line_terminator c)"

subsection \<open>The directive scan of the SIMPLE handler\<close>

text \<open>\<open>/<TAG>(.*?)<\/TAG>/\<close>\<close>

definition tag_rx :: "string \<Rightarrow> rx" where
  "tag_rx t = Seq (Lit (''<'' @ t @ ''>'')) (Seq (Group (LazyStar dot)) (Lit (''</'' @ t @ ''>'')))"

text \<open>\<open>/<SEARCH>deep\s+(.*?)<\/SEARCH>/i\<close>\<close>

definition search_deep_rx :: rx where
  "search_deep_rx =
     Seq (LitCI ''<SEARCH>deep'') (Seq (Plus is_space) (Seq (Group (LazyStar dot)) (LitCI ''</SEARCH>'')))"

definition searchMatch :: "string \<Rightarrow> rx_result option" where
  "searchMatch generatedThisLoop = str_match generatedThisLoop (tag_rx ''SEARCH'')"

definition deepMatch :: "string \<Rightarrow> rx_result option" where
  "deepMatch generatedThisLoop =
     js_or (str_match generatedThisLoop (tag_rx ''DEEP'')) (str_match generatedThisLoop search_deep_rx)"

definition thinkMatch :: "string \<Rightarrow> rx_result option" where
  "thinkMatch generatedThisLoop =
     js_or (str_match generatedThisLoop (tag_rx ''THINK'')) (str_match generatedThisLoop (Lit ''<THINK>''))"

definition imageMatch :: "string \<Rightarrow> rx_result option" where
  "imageMatch generatedThisLoop = str_match generatedThisLoop (tag_rx ''IMAGE'')"

definition projectMatch :: "string \<Rightarrow> rx_result option" where
  "projectMatch generatedThisLoop = str_match generatedThisLoop (tag_rx ''PROJECT'')"

definition canvasMatch :: "string \<Rightarrow> rx_result option" where
  "canvasMatch generatedThisLoop = str_match generatedThisLoop (tag_rx ''CANVAS'')"

definition studyMatch :: "string \<Rightarrow> rx_result option" where
  "studyMatch generatedThisLoop = str_match generatedThisLoop (tag_rx ''STUDY'')"

text \<open>
  \<open>m[1]\<close> as a string. The group of each directive regex takes part in every match, so
  the empty string for an absent capture is never used for them.
\<close>

definition group1 :: "rx_result \<Rightarrow> string" where
  "group1 m = (case snd m of Some p \<Rightarrow> p | None \<Rightarrow> [])"

text \<open>
  The chain of \<open>if (\<dots>Match) { currentAction = \<dots>; currentPrompt = \<dots>; continue; }\<close>:
  the action and prompt of the next iteration, or \<open>None\<close> when no directive matched.
  \<open>p\<close> is the value of the handler's variable \<open>prompt\<close>.
\<close>

definition scan_directives :: "string \<Rightarrow> string \<Rightarrow> (RouterAction \<times> string) option" where
  "scan_directives p generatedThisLoop =
     (case deepMatch generatedThisLoop of Some m \<Rightarrow> Some (DEEP_SEARCH, group1 m) | None \<Rightarrow>
      case searchMatch generatedThisLoop of Some m \<Rightarrow> Some (SEARCH, group1 m) | None \<Rightarrow>
      case thinkMatch generatedThisLoop of
        Some m \<Rightarrow> Some (THINK, if group1 m \<noteq> [] then str_trim (group1 m) else p) | None \<Rightarrow>
      case imageMatch generatedThisLoop of Some m \<Rightarrow> Some (IMAGE, group1 m) | None \<Rightarrow>
      case projectMatch generatedThisLoop of Some m \<Rightarrow> Some (PROJECT, group1 m) | None \<Rightarrow>
      case canvasMatch generatedThisLoop of Some m \<Rightarrow> Some (CANVAS, group1 m) | None \<Rightarrow>
      case studyMatch generatedThisLoop of Some m \<Rightarrow> Some (STUDY, group1 m) | None \<Rightarrow> None)"

subsection \<open>YouTube links\<close>

text \<open>
  \<open>/(?:youtube\.com\/(?:[^\/]+\/.+\/|(?:v|e(?:mbed)?)\/|.*[?&]v=)|youtu\.be\/)([^"&?\/\s]{11})/\<close>
  and \<open>/youtube\.com\/shorts\/([^"&?\/\s]{11})/\<close>
\<close>

definition video_id_char :: "char \<Rightarrow> bool" where
  "video_id_char c = (c \<notin> set [CHR 0x22, CHR ''&'', CHR ''?'', CHR ''/''] \<and> \<not> is_space c)"

definition youtube_rx :: rx where
  "youtube_rx =
     Seq (Alt (Seq (Lit ''youtube.com/'')
                 (Alt (Seq (Plus (\<lambda>c. c \<noteq> CHR ''/'')) (Seq (Lit ''/'') (Seq (Plus dot) (Lit ''/''))))
                 (Alt (Seq (Alt (Lit ''v'') (Seq (Lit ''e'') (Opt (Lit ''mbed'')))) (Lit ''/''))
                      (Seq (Star dot) (Seq (Cls (\<lambda>c. c = CHR ''?'' \<or> c = CHR ''&'')) (Lit ''v=''))))))
              (Lit ''youtu.be/''))
         (Group (Rep 11 video_id_char))"

definition youtube_short_rx :: rx where
  "youtube_short_rx = Seq (Lit ''youtube.com/shorts/'') (Group (Rep 11 video_id_char))"

definition youtubeMatch :: "string \<Rightarrow> rx_result option" where
  "youtubeMatch p = str_match p youtube_rx"

definition youtubeShortMatch :: "string \<Rightarrow> rx_result option" where
  "youtubeShortMatch p = str_match p youtube_short_rx"

text \<open>
  The rewritten prompt of a prompt with a YouTube link, \<open>None\<close> when neither regex
  matches (then \<open>initialAction\<close> stays \<open>null\<close> and the prompt is kept).
\<close>

definition youtube_rewrite :: "string \<Rightarrow> string option" where
  "youtube_rewrite p =
     (case js_or (youtubeShortMatch p) (youtubeMatch p) of
        None \<Rightarrow> None
      | Some m \<Rightarrow>
          Some (''Find details for YouTube ''
                @ (if youtubeShortMatch p \<noteq> None then ''Short'' else ''Video'')
                @ '' ID: '' @ group1 m @ ''. Title, Channel, and Summary. URL: '' @ fst m))"

subsection \<open>State at the start of an invocation; results\<close>

definition initial_state :: state where
  "initial_state =
     \<lparr>tick = 0, sink = [], delays = [], trace = [], model_var = [], prompt_var = [],
      thinkingBudget = 0, isNative = True, openRouterKey = None, memoryContext = [],
      baseSystemInstruction = [], dateTimeContext = [],
      routing_parameters = [], finalResponseText = [], metadataPayload = None,
      fallbackSearchContext = [], currentAction = SIMPLE, currentPrompt = []\<rparr>"

text \<open>
  \<open>{ messages: [{ project_id, chat_id, sender: 'ai', text, ...metadataPayload }] }\<close>;
  the only key \<open>metadataPayload\<close> ever holds is \<open>groundingMetadata\<close>.
\<close>

definition ai_turn :: "AgentInput \<Rightarrow> string \<Rightarrow> string option \<Rightarrow> grounding list option \<Rightarrow> turn" where
  "ai_turn i t img md =
     \<lparr>project_id = project i, chat_id = chat i, turn_sender = ''ai'', turn_text = t,
      image_base64 = img, groundingMetadata = md\<rparr>"

definition final_message :: "AgentInput \<Rightarrow> state \<Rightarrow> AgentExecutionResult" where
  "final_message i s =
     \<lparr>messages = [ai_turn i (finalResponseText s) None (metadataPayload s)]\<rparr>"

subsection \<open>Consuming a provider stream\<close>

text \<open>
  The body of \<open>if (chunk.text) { \<dots> }\<close> in the SIMPLE handler, without the update of
  \<open>generatedThisLoop\<close>; \<open>g\<close> is \<open>isNative || usedFallback\<close>.
\<close>

definition simple_chunk :: "bool \<Rightarrow> chunk \<Rightarrow> state \<Rightarrow> state" where
  "simple_chunk g c s =
     (let s1 = onStreamChunk (chunk_text c) (s\<lparr>finalResponseText := finalResponseText s @ chunk_text c\<rparr>)
      in case (if g then chunk_groundingChunks c else None) of
           None \<Rightarrow> s1
         | Some gs \<Rightarrow>
             s1\<lparr>metadataPayload :=
                  Some ((case metadataPayload s1 of None \<Rightarrow> [] | Some old \<Rightarrow> old) @ gs)\<rparr>)"

text \<open>
  \<open>for await (const chunk of generator) { if (signal?.aborted) break; \<dots> }\<close> over a native
  stream: the text generated by this loop and the error the stream ended with, if any.
\<close>

fun consume_native ::
    "AgentInput \<Rightarrow> bool \<Rightarrow> chunk list \<Rightarrow> error option \<Rightarrow> string \<Rightarrow> state \<Rightarrow> (error option \<times> string) \<times> state" where
  "consume_native i g [] err generatedThisLoop s = ((err, generatedThisLoop), s)"
| "consume_native i g (c # cs) err generatedThisLoop s =
     (case check_signal i s of
        (True, s1) \<Rightarrow> ((None, generatedThisLoop), s1)
      | (False, s1) \<Rightarrow>
          if chunk_text c \<noteq> [] then
            consume_native i g cs err (generatedThisLoop @ chunk_text c) (simple_chunk g c s1)
          else consume_native i g cs err generatedThisLoop s1)"

subsection \<open>The relay adapter \<open>streamOpenRouter\<close>\<close>

text \<open>The error thrown for a response that is not \<open>ok\<close>.\<close>

definition relay_http_error :: "string \<Rightarrow> relay_response \<Rightarrow> error" where
  "relay_http_error m resp =
     (let errorMsg = ''OpenRouter Error ('' @ string_of_nat (resp_status resp) @ '')'' in
      case resp_json resp of
        Some errorData \<Rightarrow>
          if resp_status resp = 404
             \<and> ((case error_message errorData of
                    Some t \<Rightarrow> str_includes t ''No allowed providers'' | None \<Rightarrow> False)
                  \<or> error_code errorData = Some 404)
          then Error (''The model '' @ dquote @ m @ dquote
                      @ '' is currently unavailable via OpenRouter (No providers). Please select a different model.'')
          else Error (case error_message errorData of
                        Some t \<Rightarrow> if t \<noteq> [] then t else errorMsg
                      | None \<Rightarrow> errorMsg)
      | None \<Rightarrow>
          Error (if resp_text resp \<noteq> [] then errorMsg @ '': '' @ resp_text resp else errorMsg))"

text \<open>\<open>catch (error) { if (error.name === 'AbortError') return; throw error; }\<close>\<close>

definition relay_catch :: "error option \<Rightarrow> error option" where
  "relay_catch err =
     (case err of None \<Rightarrow> None
      | Some e \<Rightarrow> if err_name e = ''AbortError'' then None else Some e)"

text \<open>
  The body of the relay response is modelled after the decoding of the event stream: one
  list of \<open>choices[0].delta.content\<close> values per \<open>reader.read()\<close>, and the error a later
  read throws, if any. \<open>relay_yields\<close> is the consumer's loop body running on the values
  yielded after one read (an empty content is not yielded); it reports whether the
  consumer broke out of its loop.
\<close>

fun relay_yields :: "AgentInput \<Rightarrow> string list \<Rightarrow> string \<Rightarrow> state \<Rightarrow> (bool \<times> string) \<times> state" where
  "relay_yields i [] generatedThisLoop s = ((False, generatedThisLoop), s)"
| "relay_yields i (d # ds) generatedThisLoop s =
     (if d = [] then relay_yields i ds generatedThisLoop s
      else
        (case check_signal i s of
           (True, s1) \<Rightarrow> ((True, generatedThisLoop), s1)
         | (False, s1) \<Rightarrow>
             relay_yields i ds (generatedThisLoop @ d)
               (simple_chunk False \<lparr>chunk_text = d, chunk_groundingChunks = None\<rparr> s1)))"

fun relay_reads ::
    "AgentInput \<Rightarrow> string list list \<Rightarrow> error option \<Rightarrow> string \<Rightarrow> state \<Rightarrow> (error option \<times> string) \<times> state" where
  "relay_reads i [] err generatedThisLoop s =
     (case check_signal i s of
        (True, s1) \<Rightarrow> ((None, generatedThisLoop), s1)
      | (False, s1) \<Rightarrow> ((relay_catch err, generatedThisLoop), emit RelayRead s1))"
| "relay_reads i (r # rs) err generatedThisLoop s =
     (case check_signal i s of
        (True, s1) \<Rightarrow> ((None, generatedThisLoop), s1)
      | (False, s1) \<Rightarrow>
          (case relay_yields i r generatedThisLoop (emit RelayRead s1) of
             ((True, t), s2) \<Rightarrow> ((None, t), s2)
           | ((False, t), s2) \<Rightarrow> relay_reads i rs err t s2))"

text \<open>
  Calling an \<open>async function*\<close> runs none of its body: the call returns the generator
  object and cannot throw. The body (the request included) runs when the generator is
  consumed.
\<close>

definition streamOpenRouter ::
    "string option \<Rightarrow> string \<Rightarrow> (string \<times> string) list \<Rightarrow> string \<Rightarrow> error + generator" where
  "streamOpenRouter key m msgs systemInstruction = Inr (RelayGen key m msgs systemInstruction)"

definition consume_relay ::
    "world \<Rightarrow> AgentInput \<Rightarrow> string option \<Rightarrow> string \<Rightarrow> (string \<times> string) list \<Rightarrow> string \<Rightarrow> state
     \<Rightarrow> (error option \<times> string) \<times> state" where
  "consume_relay w i key m msgs systemInstruction s =
     (let s1 = emit (RelayFetch m) s in
      case fetchOpenRouter w (tick s) (case key of Some k \<Rightarrow> k | None \<Rightarrow> ''undefined'') m
             ((''system'', systemInstruction) # msgs) of
        Inl e \<Rightarrow> ((relay_catch (Some e), []), s1)
      | Inr resp \<Rightarrow>
          if \<not> resp_ok resp then ((relay_catch (Some (relay_http_error m resp)), []), s1)
          else
            (case resp_body resp of
               None \<Rightarrow> ((relay_catch (Some (Error ''No response body from OpenRouter'')), []), s1)
             | Some (reads, err) \<Rightarrow> relay_reads i reads err [] s1))"

text \<open>The \<open>for await\<close> loop of the SIMPLE handler over either kind of generator.\<close>

fun consume :: "world \<Rightarrow> AgentInput \<Rightarrow> bool \<Rightarrow> generator \<Rightarrow> state \<Rightarrow> (error option \<times> string) \<times> state" where
  "consume w i g (NativeGen (cs, err)) s = consume_native i g cs err [] s"
| "consume w i g (RelayGen key m msgs systemInstruction) s =
     consume_relay w i key m msgs systemInstruction s"

subsection \<open>The action handlers (the cases of the \<open>switch\<close>)\<close>

definition flash :: string where
  "flash = ''gemini-2.5-flash''"

definition supports_thinking :: "string \<Rightarrow> bool" where
  "supports_thinking m = (str_includes m ''gemini-2.5'' \<or> str_includes m ''gemini-3'')"

definition historyWithoutLast :: "message list \<Rightarrow> message list" where
  "historyWithoutLast h = (if h \<noteq> [] \<and> msg_sender (last h) = ''user'' then butlast h else h)"

definition user_content :: "part list \<Rightarrow> string \<Rightarrow> content" where
  "user_content ps t = \<lparr>role = ''user'', parts = ps, content_text = t\<rparr>"

text \<open>
  \<open>history.map(msg => ({ role, content: msg.text, parts: [{ text: msg.text }] }))
  .filter(msg => msg.parts[0].text.trim() !== '')\<close>; \<open>other\<close> is the role of a turn that
  the user did not send.
\<close>

definition history_contents :: "string \<Rightarrow> message list \<Rightarrow> content list" where
  "history_contents other h =
     filter (\<lambda>m. str_trim (content_text m) \<noteq> [])
       (map (\<lambda>msg. \<lparr>role = (if msg_sender msg = ''user'' then ''user'' else other),
                     parts = [Text (msg_text msg)], content_text = msg_text msg\<rparr>) h)"

paragraph \<open>SEARCH and DEEP_SEARCH\<close>

definition source_grounding :: "world \<Rightarrow> string \<Rightarrow> grounding" where
  "source_grounding w url =
     \<lparr>web_uri = url,
      web_title = (case url_hostname w url of
                     Some h \<Rightarrow> str_remove_first ''www.'' h | None \<Rightarrow> ''Source'')\<rparr>"

definition synthesisPrompt :: "string \<Rightarrow> string \<Rightarrow> string" where
  "synthesisPrompt q ctx =
     ''USER QUERY: '' @ q @ nl @ nl @ ''SEARCH CONTEXT:'' @ nl @ ctx @ nl @ nl
     @ ''INSTRUCTIONS: Synthesize a comprehensive answer to the user'' @ [CHR 0x27]
     @ ''s query based ONLY on the provided search context. Cite sources using [1], [2] format where appropriate.''"

text \<open>
  The progress callback \<open>(msg) => { if (!signal?.aborted) onStreamChunk?.(`\n*${msg}*`) }\<close>,
  run on the messages the research reports while it works.
\<close>

fun research_progress :: "AgentInput \<Rightarrow> string list \<Rightarrow> state \<Rightarrow> state" where
  "research_progress i [] s = s"
| "research_progress i (m # ms) s =
     research_progress i ms
       ((if aborted i s then s else onStreamChunk (nl @ ''*'' @ m @ ''*'') s)\<lparr>tick := tick s + 1\<rparr>)"

definition case_SEARCH :: "world \<Rightarrow> AgentInput \<Rightarrow> state \<Rightarrow> outcome \<times> state" where
  "case_SEARCH w i s =
     (let s1 = onStreamChunk (nl @ ''Searching sources...'' @ nl) s in
      case deepResearch w (tick s1) (currentPrompt s1) of
        (msgs, res) \<Rightarrow>
          (let s2 = research_progress i msgs (emit (ResearchCall (currentPrompt s1)) s1) in
           case res of
             Inl e \<Rightarrow> (Throw e, s2)
           | Inr result \<Rightarrow>
               (let s3 = (if sources result \<noteq> []
                          then s2\<lparr>metadataPayload := Some (map (source_grounding w) (sources result))\<rparr>
                          else s2);
                    s4 = s3\<lparr>fallbackSearchContext := answer result\<rparr>
                in (Continue,
                    s4\<lparr>currentPrompt := synthesisPrompt (currentPrompt s4) (fallbackSearchContext s4),
                       currentAction := SIMPLE\<rparr>))))"

paragraph \<open>THINK\<close>

definition contextBlock :: "state \<Rightarrow> string" where
  "contextBlock s =
     baseSystemInstruction s @ nl @ nl @ dateTimeContext s @ nl @ nl @ ''[MEMORY]'' @ nl
     @ memoryContext s @ nl @ nl @ ''[TASK]'' @ nl @ currentPrompt s"

definition case_THINK :: "world \<Rightarrow> AgentInput \<Rightarrow> state \<Rightarrow> outcome \<times> state" where
  "case_THINK w i s =
     (let taskBudget = (if thinkingBudget s > 0 then thinkingBudget s else 2048);
          s1 = (if \<not> supports_thinking (model_var s) then s\<lparr>model_var := flash\<rparr> else s);
          s2 = onStreamChunk (nl @ ''Thinking deeply...'' @ nl) s1;
          s3 = emit ThinkingCountCall s2
      in case incrementThinkingCount w (tick s2) of
           Some e \<Rightarrow> (Throw e, s3)
         | None \<Rightarrow>
             (case generateContentStreamWithRetry w
                     \<lparr>gp_model = model_var s3,
                      gp_contents = Turns (history_contents ''model'' (history i)
                                           @ [user_content [Text (contextBlock s3)] (contextBlock s3)]),
                      gp_systemInstruction = None, gp_googleSearch = False,
                      gp_thinkingBudget = Some taskBudget, gp_responseMimeType = None\<rparr> 3 s3 of
                (Inl e, s4) \<Rightarrow> (Throw e, s4)
              | (Inr (cs, err), s4) \<Rightarrow>
                  (case consume_native i False cs err [] s4 of
                     ((Some e, t), s5) \<Rightarrow> (Throw e, s5)
                   | ((None, t), s5) \<Rightarrow> (Return (final_message i s5), s5))))"

paragraph \<open>IMAGE\<close>

text \<open>\<open>JSON.stringify\<close> of a string.\<close>

definition hex_digit :: "nat \<Rightarrow> char" where
  "hex_digit d = ''0123456789abcdef'' ! d"

definition json_char :: "char \<Rightarrow> string" where
  "json_char c =
     (if c = CHR 0x22 then [CHR 0x5C, CHR 0x22]
      else if c = CHR 0x5C then [CHR 0x5C, CHR 0x5C]
      else if c = CHR 0x08 then [CHR 0x5C, CHR ''b'']
      else if c = CHR 0x0C then [CHR 0x5C, CHR ''f'']
      else if c = CHR 0x0A then [CHR 0x5C, CHR ''n'']
      else if c = CHR 0x0D then [CHR 0x5C, CHR ''r'']
      else if c = CHR 0x09 then [CHR 0x5C, CHR ''t'']
      else if (of_char c :: nat) < 32
        then [CHR 0x5C, CHR ''u'', CHR ''0'', CHR ''0'',
              hex_digit ((of_char c :: nat) div 16), hex_digit ((of_char c :: nat) mod 16)]
      else [c])"

definition json_string :: "string \<Rightarrow> string" where
  "json_string t = dquote @ concat (map json_char t) @ dquote"

definition image_generation_start :: "string \<Rightarrow> string" where
  "image_generation_start t =
     ''{'' @ dquote @ ''type'' @ dquote @ '':'' @ dquote @ ''image_generation_start'' @ dquote
     @ '','' @ dquote @ ''text'' @ dquote @ '':'' @ json_string t @ ''}''"

definition case_IMAGE :: "world \<Rightarrow> AgentInput \<Rightarrow> state \<Rightarrow> outcome \<times> state" where
  "case_IMAGE w i s =
     (let s1 = onStreamChunk (image_generation_start (finalResponseText s)) s;
          imagePrompt = (case map_of (routing_parameters s1) ''prompt'' of
                           Some p \<Rightarrow> if p \<noteq> [] then p else currentPrompt s1
                         | None \<Rightarrow> currentPrompt s1);
          s2 = emit (ImageCall imagePrompt) s1
      in case generateImage w (tick s1) imagePrompt
                (case profile i of None \<Rightarrow> None | Some pr \<Rightarrow> preferred_image_model pr) of
           Inr imageBase64 \<Rightarrow>
             (Return \<lparr>messages = [ai_turn i (finalResponseText s2) (Some imageBase64) (metadataPayload s2)]\<rparr>,
              s2)
         | Inl e \<Rightarrow>
             (let errorMsg = nl @ nl @ ''(Image generation failed: '' @ err_message e @ '')'';
                  s3 = onStreamChunk errorMsg (s2\<lparr>finalResponseText := finalResponseText s2 @ errorMsg\<rparr>)
              in (Return (final_message i s3), s3)))"

paragraph \<open>CANVAS\<close>

text \<open>
  The canvas agent answers with the texts of its messages; the handler reads the first
  one, and reading \<open>text\<close> of a missing first message throws a \<open>TypeError\<close>.
\<close>

definition case_CANVAS :: "world \<Rightarrow> AgentInput \<Rightarrow> state \<Rightarrow> outcome \<times> state" where
  "case_CANVAS w i s =
     (let s1 = emit (CanvasCall (currentPrompt s)) s in
      case runCanvasAgent w (tick s) (currentPrompt s) of
        Inl e \<Rightarrow> (Throw e, s1)
      | Inr [] \<Rightarrow> (Throw (TypeError ''canvasMessage is undefined''), s1)
      | Inr (canvasMessage # ms) \<Rightarrow>
          (let s2 = s1\<lparr>finalResponseText := (case canvasMessage of Some t \<Rightarrow> t | None \<Rightarrow> [])\<rparr>
           in (Return (final_message i s2), s2)))"

paragraph \<open>PROJECT\<close>

definition case_PROJECT :: "world \<Rightarrow> AgentInput \<Rightarrow> state \<Rightarrow> outcome \<times> state" where
  "case_PROJECT w i s =
     (if \<not> isGoogleModel (model_var s) then (Continue, s\<lparr>currentAction := SIMPLE\<rparr>)
      else
        (let s1 = onStreamChunk (nl @ ''Building project structure...'' @ nl) s;
             s2 = emit (NativeContentCall flash) s1
         in case generateContent w (tick s1)
                   \<lparr>gp_model = flash,
                    gp_contents = Plain (''Build a complete file structure for a project: ''
                        @ currentPrompt s1
                        @ ''. Return a JSON object with filenames and brief content descriptions.''),
                    gp_systemInstruction = None, gp_googleSearch = False,
                    gp_thinkingBudget = None, gp_responseMimeType = Some ''application/json''\<rparr> of
              Inl e \<Rightarrow> (Throw e, s2)
            | Inr response_text \<Rightarrow>
                (let projectMsg = nl @ ''I'' @ [CHR 0x27]
                       @ ''ve designed the project structure based on your request.'' @ nl @ nl
                       @ response_text @ nl @ nl
                       @ ''(Switch to Co-Creator mode to fully hydrate and edit these files.)'';
                     s3 = onStreamChunk projectMsg
                            (s2\<lparr>finalResponseText := finalResponseText s2 @ projectMsg\<rparr>)
                 in (Return (final_message i s3), s3))))"

paragraph \<open>STUDY\<close>

definition case_STUDY :: "world \<Rightarrow> AgentInput \<Rightarrow> state \<Rightarrow> outcome \<times> state" where
  "case_STUDY w i s =
     (if \<not> isGoogleModel (model_var s) then (Continue, s\<lparr>currentAction := SIMPLE\<rparr>)
      else
        (let s1 = onStreamChunk (nl @ ''Creating study plan...'' @ nl) s in
         case generateContentStreamWithRetry w
                \<lparr>gp_model = flash,
                 gp_contents = Plain (''Create a structured study plan for: '' @ currentPrompt s1
                     @ ''. Include learning objectives and key concepts.''),
                 gp_systemInstruction = None, gp_googleSearch = False,
                 gp_thinkingBudget = None, gp_responseMimeType = None\<rparr> 3 s1 of
           (Inl e, s2) \<Rightarrow> (Throw e, s2)
         | (Inr (cs, err), s2) \<Rightarrow>
             (case consume_native i False cs err [] s2 of
                ((Some e, t), s3) \<Rightarrow> (Throw e, s3)
              | ((None, t), s3) \<Rightarrow> (Return (final_message i s3), s3))))"

paragraph \<open>SIMPLE (and \<open>default\<close>)\<close>

definition systemPrompt :: "state \<Rightarrow> string" where
  "systemPrompt s =
     baseSystemInstruction s @ nl @ nl @ ''[MEMORY]'' @ nl @ memoryContext s @ nl @ nl
     @ dateTimeContext s"

text \<open>
  The attachments of a native request: each file is read as a data URL, and
  \<open>res.split(',')[1]\<close> is put in front of the parts gathered so far.
\<close>

fun read_inline_files :: "world \<Rightarrow> attachment list \<Rightarrow> part list \<Rightarrow> state \<Rightarrow> (error + part list) \<times> state" where
  "read_inline_files w [] userParts s = (Inr userParts, s)"
| "read_inline_files w (f # fs) userParts s =
     (case readAsDataURL w (tick s) f of
        Inl e \<Rightarrow> (Inl e, emit (FileReadCall (file_name f)) s)
      | Inr res \<Rightarrow>
          read_inline_files w fs
            (InlineData (case str_split (CHR '','') res of a # b # rest \<Rightarrow> Some b | _ \<Rightarrow> None)
               (file_type f) # userParts)
            (emit (FileReadCall (file_name f)) s))"

definition simple_history :: "world \<Rightarrow> AgentInput \<Rightarrow> state \<Rightarrow> (error + content list) \<times> state" where
  "simple_history w i s =
     (let historyMessages =
            history_contents (if isNative s then ''model'' else ''assistant'')
              (historyWithoutLast (history i))
      in if files i \<noteq> [] \<and> isNative s then
           (case read_inline_files w (files i) [Text (currentPrompt s)] s of
              (Inl e, s1) \<Rightarrow> (Inl e, s1)
            | (Inr userParts, s1) \<Rightarrow>
                (Inr (historyMessages @ [user_content userParts (currentPrompt s)]), s1))
         else (Inr (historyMessages @ [user_content [Text (currentPrompt s)] (currentPrompt s)]), s))"

text \<open>
  The choice of the generator, with the \<open>try\<close>/\<open>catch\<close> around the call of
  \<open>streamOpenRouter\<close>; the second component is \<open>usedFallback\<close>.
\<close>

definition simple_generator ::
    "world \<Rightarrow> content list \<Rightarrow> state \<Rightarrow> (error + generator \<times> bool) \<times> state" where
  "simple_generator w historyMessages s =
     (if isNative s then
        (case generateContentStreamWithRetry w
                \<lparr>gp_model = model_var s, gp_contents = Turns historyMessages,
                 gp_systemInstruction = Some (systemPrompt s), gp_googleSearch = True,
                 gp_thinkingBudget = (if thinkingBudget s > 0 then Some (thinkingBudget s) else None),
                 gp_responseMimeType = None\<rparr> 3 s of
           (Inl e, s1) \<Rightarrow> (Inl e, s1)
         | (Inr g, s1) \<Rightarrow> (Inr (NativeGen g, False), s1))
      else
        (case streamOpenRouter (openRouterKey s) (model_var s)
                (map (\<lambda>m. (role m, content_text m)) historyMessages) (systemPrompt s) of
           Inr generator \<Rightarrow> (Inr (generator, False), s)
         | Inl orError \<Rightarrow>
             if str_includes (err_message orError) ''unavailable''
                \<or> str_includes (err_message orError) ''404''
             then
               (let s1 = onStreamChunk (nl @ ''*(Model '' @ model_var s
                                        @ '' unavailable, switching to Gemini...)*'' @ nl) s in
                case generateContentStreamWithRetry w
                       \<lparr>gp_model = flash, gp_contents = Turns historyMessages,
                        gp_systemInstruction = Some (systemPrompt s), gp_googleSearch = True,
                        gp_thinkingBudget = None, gp_responseMimeType = None\<rparr> 3 s1 of
                  (Inl e, s2) \<Rightarrow> (Inl e, s2)
                | (Inr g, s2) \<Rightarrow> (Inr (NativeGen g, True), s2))
             else (Inl orError, s)))"

text \<open>
  After the stream: the directive dispatch, or the terminal return with the safety net
  for an empty answer.
\<close>

definition simple_finish :: "AgentInput \<Rightarrow> string \<Rightarrow> state \<Rightarrow> outcome \<times> state" where
  "simple_finish i generatedThisLoop s =
     (case scan_directives (prompt_var s) generatedThisLoop of
        Some (a, p) \<Rightarrow>
          (Continue,
           s\<lparr>currentAction := a, currentPrompt := p,
             routing_parameters := (if a = IMAGE then [(''prompt'', p)] else routing_parameters s)\<rparr>)
      | None \<Rightarrow>
          (let s1 = (if str_trim (finalResponseText s) = [] \<and> fallbackSearchContext s \<noteq> []
                     then onStreamChunk (fallbackSearchContext s)
                            (s\<lparr>finalResponseText := fallbackSearchContext s\<rparr>)
                     else s)
           in (Return (final_message i s1), s1)))"

definition case_SIMPLE :: "world \<Rightarrow> AgentInput \<Rightarrow> state \<Rightarrow> outcome \<times> state" where
  "case_SIMPLE w i s =
     (case simple_history w i s of
        (Inl e, s1) \<Rightarrow> (Throw e, s1)
      | (Inr historyMessages, s1) \<Rightarrow>
          (case simple_generator w historyMessages s1 of
             (Inl e, s2) \<Rightarrow> (Throw e, s2)
           | (Inr (generator, usedFallback), s2) \<Rightarrow>
               (case consume w i (isNative s2 \<or> usedFallback) generator s2 of
                  ((Some e, generatedThisLoop), s3) \<Rightarrow> (Throw e, s3)
                | ((None, generatedThisLoop), s3) \<Rightarrow> simple_finish i generatedThisLoop s3)))"

subsection \<open>The re-routing loop\<close>

definition MAX_LOOPS :: nat where
  "MAX_LOOPS = 6"

definition switch_action :: "world \<Rightarrow> AgentInput \<Rightarrow> state \<Rightarrow> outcome \<times> state" where
  "switch_action w i s =
     (case currentAction s of
        SEARCH \<Rightarrow> case_SEARCH w i s
      | DEEP_SEARCH \<Rightarrow> case_SEARCH w i s
      | THINK \<Rightarrow> case_THINK w i s
      | IMAGE \<Rightarrow> case_IMAGE w i s
      | CANVAS \<Rightarrow> case_CANVAS w i s
      | PROJECT \<Rightarrow> case_PROJECT w i s
      | STUDY \<Rightarrow> case_STUDY w i s
      | SIMPLE \<Rightarrow> case_SIMPLE w i s)"

text \<open>
  \<open>while (loopCount < MAX_LOOPS) { if (signal?.aborted) break; loopCount++; switch \<dots> }\<close>.
  The result \<open>Continue\<close> says that control left the loop without a \<open>return\<close> (the bound
  was reached, or the loop broke on the signal); the last component is \<open>loopCount\<close>.
\<close>

function agent_loop :: "world \<Rightarrow> AgentInput \<Rightarrow> nat \<Rightarrow> state \<Rightarrow> (outcome \<times> state) \<times> nat" where
  "agent_loop w i loopCount s =
     (if loopCount < MAX_LOOPS then
        (case check_signal i s of
           (True, s1) \<Rightarrow> ((Continue, s1), loopCount)
         | (False, s1) \<Rightarrow>
             (case switch_action w i s1 of
                (Continue, s2) \<Rightarrow> agent_loop w i (loopCount + 1) s2
              | (Return r, s2) \<Rightarrow> ((Return r, s2), loopCount + 1)
              | (Throw e, s2) \<Rightarrow> ((Throw e, s2), loopCount + 1)))
      else ((Continue, s), loopCount))"
  by pat_completeness auto
termination
  by (relation "measure (\<lambda>(w, i, loopCount, s). MAX_LOOPS - loopCount)") auto

declare agent_loop.simps [simp del]

subsection \<open>Instant mode\<close>

definition is_text_file :: "attachment \<Rightarrow> bool" where
  "is_text_file f =
     (str_startsWith (file_type f) ''text/''
      \<or> (\<exists>ext \<in> set [''.js'', ''.ts'', ''.tsx'', ''.jsx'', ''.py'', ''.json'', ''.md'', ''.html'',
                      ''.css'', ''.lua'']. str_endsWith (file_name f) ext))"

fun instant_files :: "world \<Rightarrow> attachment list \<Rightarrow> string \<Rightarrow> string \<Rightarrow> state \<Rightarrow> (string \<times> string) \<times> state" where
  "instant_files w [] imageNote fileContext s = ((imageNote, fileContext), s)"
| "instant_files w (f # fs) imageNote fileContext s =
     (if str_startsWith (file_type f) ''image/'' then
        instant_files w fs
          (imageNote @ nl @ ''[User attached an image: '' @ dquote @ file_name f @ dquote
           @ ''. Note: I cannot see images in Instant Mode, so I should ask the user to describe it if needed.]'')
          fileContext s
      else if is_text_file f then
        (case readTextFile w (tick s) f of
           Inr content \<Rightarrow>
             instant_files w fs imageNote
               (fileContext @ nl @ nl @ ''--- FILE CONTENT: '' @ file_name f @ '' ---'' @ nl
                @ content @ nl @ ''--- END FILE ---'' @ nl)
               (emit (FileReadCall (file_name f)) s)
         | Inl e \<Rightarrow>
             instant_files w fs imageNote
               (fileContext @ nl @ ''[Error reading file: '' @ file_name f @ '']'')
               (emit (FileReadCall (file_name f)) s))
      else
        instant_files w fs imageNote
          (fileContext @ nl @ ''[Attached file: '' @ file_name f @ '' (Binary/Unsupported for read)]'') s)"

text \<open>
  The \<open>try\<close>/\<open>catch\<close> of instant mode: whatever the free completion service throws is
  replaced by a new error, which is thrown to the caller.
\<close>

definition instant_mode :: "world \<Rightarrow> AgentInput \<Rightarrow> state \<Rightarrow> (error + AgentExecutionResult) \<times> state" where
  "instant_mode w i s =
     (let msgs = map (\<lambda>m. (if msg_sender m = ''user'' then ''user'' else ''assistant'', msg_text m))
                   (historyWithoutLast (history i)) in
      case instant_files w (files i) [] [] s of
        ((imageNote, fileContext), s1) \<Rightarrow>
          (let finalPrompt = prompt i @ imageNote @ fileContext;
               s2 = emit FreeCompletionCall s1 in
           case generateFreeCompletion w (tick s1) (msgs @ [(''user'', finalPrompt)]) of
             (streamed, res) \<Rightarrow>
               (let s3 = s2\<lparr>sink := sink s2 @ streamed\<rparr> in
                case res of
                  Inr t \<Rightarrow> (Inr \<lparr>messages = [ai_turn i t None None]\<rparr>, s3)
                | Inl e \<Rightarrow> (Inl (Error ''Instant mode service unavailable.''), s3))))"

subsection \<open>Model selection and set-up\<close>

definition profile_field :: "AgentInput \<Rightarrow> (profile \<Rightarrow> string option) \<Rightarrow> string option" where
  "profile_field i f = (case profile i of None \<Rightarrow> None | Some pr \<Rightarrow> f pr)"

definition truthy :: "string option \<Rightarrow> bool" where
  "truthy v = (v \<noteq> None \<and> v \<noteq> Some [])"

definition select_model :: "AgentInput \<Rightarrow> state \<Rightarrow> state" where
  "select_model i s =
     (let m0 = (if str_trim (model i) = [] then flash else model i);
          m1 = (case thinkingMode i of
                  Deep \<Rightarrow> (if truthy (profile_field i preferred_deep_model)
                            then the (profile_field i preferred_deep_model)
                            else ''gemini-3-pro-preview'')
                | Think \<Rightarrow> flash
                | Fast \<Rightarrow> m0
                | Instant \<Rightarrow> m0);
          budget = (case thinkingMode i of Deep \<Rightarrow> 8192 | Think \<Rightarrow> 2048 | Fast \<Rightarrow> 0 | Instant \<Rightarrow> 0)
      in if budget > 0 \<and> \<not> supports_thinking m1 then
           onStreamChunk (nl @ ''*(Switched to Gemini 2.5 Flash for Thinking mode compatibility)*'' @ nl)
             (s\<lparr>model_var := flash, thinkingBudget := budget\<rparr>)
         else s\<lparr>model_var := m1, thinkingBudget := budget\<rparr>)"

definition is_word_char :: "char \<Rightarrow> bool" where
  "is_word_char c =
     (c \<in> set (''abcdefghijklmnopqrstuvwxyz'' @ ''ABCDEFGHIJKLMNOPQRSTUVWXYZ'' @ ''0123456789_''))"

text \<open>\<open>.replace(/\b\w/g, l => l.toUpperCase())\<close>; \<open>prev\<close> says that the character before is a word character.\<close>

fun capitalize_words :: "bool \<Rightarrow> string \<Rightarrow> string" where
  "capitalize_words prev [] = []"
| "capitalize_words prev (c # cs) =
     (if is_word_char c \<and> \<not> prev then ascii_upper c else c) # capitalize_words (is_word_char c) cs"

definition friendlyModelName :: "string \<Rightarrow> string" where
  "friendlyModelName m =
     (let rawModelName = (if last (str_split (CHR ''/'') m) = [] then m else last (str_split (CHR ''/'') m))
      in capitalize_words False (map (\<lambda>c. if c = CHR ''-'' then CHR '' '' else c) rawModelName))"

definition modelIdentityBlock :: "string \<Rightarrow> nat \<Rightarrow> string" where
  "modelIdentityBlock friendly budget =
     ''You are currently running on the model: **'' @ friendly @ ''**.'' @ nl
     @ ''If the user asks '' @ dquote @ ''Which AI model are you?'' @ dquote
     @ '', reply that you are Bubble, running on '' @ friendly @ ''.''
     @ (if budget > 0 then
          nl @ nl @ ''[THINKING ENABLED]'' @ nl
          @ ''You have extended reasoning capabilities (Budget: '' @ string_of_nat budget @ '' tokens). ''
          @ nl @ nl @ ''**CRITICAL MANDATORY REQUIREMENT:**'' @ nl
          @ ''You MUST output your internal thought process wrapped inside <THINK> tags at the very beginning of your response. ''
          @ nl @ ''Example: <THINK>I need to calculate the trajectory...</THINK> Here is the answer...''
          @ nl @ nl
          @ ''Failure to include the <THINK> block will be considered a system error. YOU MUST THINK FIRST.''
        else [])"

text \<open>
  The part of the \<open>try\<close> block before the loop. The world's \<open>autonomousInstruction\<close> is the
  instruction template applied to the model identity block. \<open>Some e\<close> says that \<open>e\<close> was
  thrown before the loop was reached.
\<close>

definition try_setup :: "world \<Rightarrow> AgentInput \<Rightarrow> state \<Rightarrow> error option \<times> state" where
  "try_setup w i s =
     (let s1 = s\<lparr>isNative := isGoogleModel (model_var s),
                openRouterKey := profile_field i openrouter_api_key\<rparr>;
          s2 = (if \<not> isNative s1 \<and> \<not> truthy (openRouterKey s1)
                then onStreamChunk (nl @ ''*(OpenRouter key missing, falling back to Gemini...)*'' @ nl)
                       (s1\<lparr>model_var := flash\<rparr>)
                else s1);
          initialAction = (if youtube_rewrite (prompt i) \<noteq> None then Some SEARCH else None);
          s3 = s2\<lparr>prompt_var := (case youtube_rewrite (prompt i) of Some p \<Rightarrow> p | None \<Rightarrow> prompt i)\<rparr>;
          s4 = emit (RouteCall (prompt_var s3)) s3
      in case route w (tick s3) (prompt_var s3) (user i) (apiKey i) (length (files i)) of
           Inl e \<Rightarrow> (Some e, s4)
         | Inr routing0 \<Rightarrow>
             (let routing = (case initialAction of
                               Some a \<Rightarrow> routing0\<lparr>action := a, parameters := []\<rparr>
                             | None \<Rightarrow> routing0);
                  s5 = emit MemoryCall s4
              in case getContext w (tick s4) of
                   Inl e \<Rightarrow> (Some e, s5)
                 | Inr mem \<Rightarrow>
                     (None,
                      s5\<lparr>memoryContext := mem,
                         dateTimeContext := ''[CURRENT DATE & TIME]'' @ nl @ formatTimestamp w @ nl,
                         baseSystemInstruction :=
                           autonomousInstruction w
                             (modelIdentityBlock (friendlyModelName (model_var s5)) (thinkingBudget s5)),
                         routing_parameters := parameters routing,
                         metadataPayload := None,
                         fallbackSearchContext := [],
                         currentAction := action routing,
                         currentPrompt := prompt_var s5\<rparr>)))"

subsection \<open>\<open>runAutonomousAgent\<close>\<close>

text \<open>
  The \<open>try\<close> block: set-up, the loop, and the \<open>return\<close> after the loop. The last component
  is the final \<open>loopCount\<close>.
\<close>

definition try_body :: "world \<Rightarrow> AgentInput \<Rightarrow> state \<Rightarrow> ((error + AgentExecutionResult) \<times> state) \<times> nat" where
  "try_body w i s =
     (case try_setup w i s of
        (Some e, s1) \<Rightarrow> ((Inl e, s1), 0)
      | (None, s1) \<Rightarrow>
          (case agent_loop w i 0 s1 of
             ((Continue, s2), n) \<Rightarrow> ((Inr (final_message i s2), s2), n)
           | ((Return r, s2), n) \<Rightarrow> ((Inr r, s2), n)
           | ((Throw e, s2), n) \<Rightarrow> ((Inl e, s2), n)))"

text \<open>The \<open>catch\<close> block: the turn returned for a caught error.\<close>

definition catch_error :: "world \<Rightarrow> AgentInput \<Rightarrow> error \<Rightarrow> state \<Rightarrow> AgentExecutionResult" where
  "catch_error w i e s =
     (if err_name e = ''AbortError'' then
        \<lparr>messages = [ai_turn i (if finalResponseText s \<noteq> [] then finalResponseText s
                                else ''(Generation stopped by user)'') None None]\<rparr>
      else
        \<lparr>messages = [ai_turn i
            (''An error occurred: ''
             @ (if str_includes (err_message e) ''OpenRouter'' then err_message e
                else getUserFriendlyError w e)) None None]\<rparr>)"

text \<open>
  One invocation: what the caller receives (\<open>Inl\<close> for a rejected promise), with the
  final state (sink, trace, texts) for the properties below.
\<close>

definition runAutonomousAgent :: "world \<Rightarrow> AgentInput \<Rightarrow> (error + AgentExecutionResult) \<times> state" where
  "runAutonomousAgent w i =
     (if thinkingMode i = Instant then instant_mode w i initial_state
      else
        (case try_body w i (select_model i initial_state) of
           ((Inr r, s), n) \<Rightarrow> (Inr r, s)
         | ((Inl e, s), n) \<Rightarrow> (Inr (catch_error w i e s), s)))"


subsection \<open>Notions used in the statements\<close>



text \<open>
  Two ways a piece of the handler can move the state. A quiet step makes collaborator
  calls only. An aborted step ends with the observation of the aborted signal, taken
  when the accumulated text was \<open>t\<close>. Neither assigns the variable \<open>prompt\<close>.
\<close>

definition no_obs :: "event list \<Rightarrow> bool" where
  "no_obs tr = list_all (\<lambda>e. \<not> is_observation e) tr"

definition quiet_step :: "state \<Rightarrow> state \<Rightarrow> bool" where
  "quiet_step s s' =
     ((\<exists>new. trace s' = trace s @ new \<and> no_obs new)
      \<and> tick s \<le> tick s' \<and> prompt_var s' = prompt_var s)"

definition aborted_step :: "AgentInput \<Rightarrow> string \<Rightarrow> state \<Rightarrow> state \<Rightarrow> bool" where
  "aborted_step i t s s' =
     ((\<exists>new. trace s' = trace s @ new @ [AbortObserved t] \<and> no_obs new)
      \<and> aborted i s' \<and> tick s \<le> tick s' \<and> prompt_var s' = prompt_var s)"

text \<open>The citation records held by \<open>metadataPayload\<close> (none when the key is absent).\<close>

definition citations :: "grounding list option \<Rightarrow> grounding list" where
  "citations m = (case m of None \<Rightarrow> [] | Some l \<Rightarrow> l)"

text \<open>
  What the consumption of a stream does: the text \<open>gen\<close> generated by the loop grows from
  \<open>acc\<close> by what is appended to \<open>finalResponseText\<close>; the step is quiet, or it ends with
  the observation of the aborted signal and then no error is thrown; citations are
  appended to those already held, and only when \<open>g\<close> allows it.
\<close>

definition consumed :: "AgentInput \<Rightarrow> bool \<Rightarrow> error option \<Rightarrow> string \<Rightarrow> string \<Rightarrow> state \<Rightarrow> state \<Rightarrow> bool" where
  "consumed i g r acc gen s s' =
     ((\<exists>d. gen = acc @ d \<and> finalResponseText s' = finalResponseText s @ d)
      \<and> (quiet_step s s' \<or> (r = None \<and> aborted_step i (finalResponseText s') s s'))
      \<and> (\<exists>gs. citations (metadataPayload s') = citations (metadataPayload s) @ gs)
      \<and> (\<not> g \<longrightarrow> metadataPayload s' = metadataPayload s))"


text \<open>
  What one pass through the \<open>switch\<close> does: the step is quiet, or it ends with the
  observation of the aborted signal. In the second case the handler does not throw: it
  continues with the accumulated text unchanged, or it returns the final message, whose
  text is the text accumulated when the signal was observed, unless that text was blank
  and the answer of an earlier search took its place.
\<close>

definition handled :: "AgentInput \<Rightarrow> outcome \<Rightarrow> state \<Rightarrow> state \<Rightarrow> bool" where
  "handled i out s s' =
     (quiet_step s s'
      \<or> (\<exists>t. aborted_step i t s s'
             \<and> ((out = Continue \<and> finalResponseText s' = t)
                  \<or> (out = Return (final_message i s')
                      \<and> (finalResponseText s' = t
                           \<or> (str_trim t = [] \<and> fallbackSearchContext s' \<noteq> []
                               \<and> finalResponseText s' = fallbackSearchContext s'))))))"

text \<open>A step that changes nothing but the tick, the sink, the waits and the trace.\<close>

definition fx_only :: "state \<Rightarrow> state \<Rightarrow> bool" where
  "fx_only s s' = (s' = s\<lparr>tick := tick s', sink := sink s', delays := delays s', trace := trace s'\<rparr>)"



subsection \<open>Concrete collaborators and inputs, for evaluating the model\<close>

definition error_429 :: error where
  "error_429 = \<lparr>err_name = ''ApiError'', err_message = ''Too Many Requests'', err_status = Some 429\<rparr>"

definition world0 :: world where
  "world0 =
     \<lparr>generateFreeCompletion = (\<lambda>t ms. ([], Inr ''ok'')),
      readTextFile = (\<lambda>t f. Inr []),
      readAsDataURL = (\<lambda>t f. Inr ''data:text/plain;base64,QQ==''),
      route = (\<lambda>t p u k n. Inr \<lparr>action = SIMPLE, parameters = []\<rparr>),
      getContext = (\<lambda>t. Inr ''{}''),
      deepResearch = (\<lambda>t p. ([], Inr \<lparr>answer = ''ANSWER'', sources = []\<rparr>)),
      incrementThinkingCount = (\<lambda>t. None),
      generateContentStream = (\<lambda>t p. Inr ([], None)),
      generateContent = (\<lambda>t p. Inr ''{}''),
      generateImage = (\<lambda>t p m. Inr ''QUJD''),
      runCanvasAgent = (\<lambda>t p. Inr [Some ''canvas'']),
      fetchOpenRouter = (\<lambda>t k m ms.
         Inr \<lparr>resp_ok = True, resp_status = 200, resp_json = None, resp_text = [],
              resp_body = Some ([], None)\<rparr>),
      url_hostname = (\<lambda>u. None),
      getUserFriendlyError = (\<lambda>e. ''Something went wrong.''),
      autonomousInstruction = (\<lambda>b. b),
      formatTimestamp = ''now''\<rparr>"

definition params0 :: gen_params where
  "params0 =
     \<lparr>gp_model = ''gemini-2.5-flash'', gp_contents = Plain ''hello'',
      gp_systemInstruction = None, gp_googleSearch = False, gp_thinkingBudget = None,
      gp_responseMimeType = None\<rparr>"

definition hello_stream :: stream where
  "hello_stream = ([\<lparr>chunk_text = ''hello'', chunk_groundingChunks = None\<rparr>], None)"

text \<open>A provider that is over quota on every call, and one that recovers at tick 2.\<close>

definition world_always_429 :: world where
  "world_always_429 = world0\<lparr>generateContentStream := (\<lambda>t p. Inl error_429)\<rparr>"

definition world_two_429 :: world where
  "world_two_429 =
     world0\<lparr>generateContentStream := (\<lambda>t p. if t < 2 then Inl error_429 else Inr hello_stream)\<rparr>"

definition world_bad_request :: world where
  "world_bad_request =
     world0\<lparr>generateContentStream :=
        (\<lambda>t p. Inl \<lparr>err_name = ''ApiError'', err_message = ''Bad Request'', err_status = Some 400\<rparr>)\<rparr>"



definition input0 :: AgentInput where
  "input0 =
     \<lparr>prompt = ''hello'', files = [], apiKey = ''key'', project = ''p1'', chat = ''c1'',
      history = [], user = ''u1'', profile = None, model = ''gemini-2.5-flash'',
      thinkingMode = Fast, signal = None\<rparr>"

definition text_stream :: "string \<Rightarrow> stream" where
  "text_stream t = ([\<lparr>chunk_text = t, chunk_groundingChunks = None\<rparr>], None)"






text \<open>
  A relay model that no provider serves: the relay answers 404 with its \<open>No allowed
  providers\<close> message. The user has a relay key and has chosen a relay model.
\<close>

definition world_relay_404 :: world where
  "world_relay_404 =
     world0\<lparr>fetchOpenRouter := (\<lambda>t k m ms.
        Inr \<lparr>resp_ok = False, resp_status = 404,
             resp_json = Some \<lparr>error_message = Some ''No allowed providers are available for the selected model.'',
                               error_code = Some 404\<rparr>,
             resp_text = [], resp_body = None\<rparr>)\<rparr>"

definition input_relay :: AgentInput where
  "input_relay =
     input0\<lparr>model := ''openai/gpt-4o'',
            profile := Some \<lparr>preferred_deep_model = None, preferred_image_model = None,
                             openrouter_api_key = Some ''sk-or-1''\<rparr>\<rparr>"







text \<open>
  A prompt with a video link, and a provider whose every answer opens a \<open><THINK>\<close> tag
  and never closes it.
\<close>

definition input_video :: AgentInput where
  "input_video = input0\<lparr>prompt := ''summarize https://youtu.be/dQw4w9WgXcQ''\<rparr>"

definition world_bare_think :: world where
  "world_bare_think = world0\<lparr>generateContentStream := (\<lambda>t p. Inr (text_stream ''<THINK>''))\<rparr>"

text \<open>
  A provider whose first answer (the call at tick 3) asks for a search and whose later
  answers are final.
\<close>

definition world_cats :: world where
  "world_cats =
     world0\<lparr>generateContentStream := (\<lambda>t p.
        if t \<le> 3 then Inr (text_stream ''<SEARCH>cats</SEARCH>'')
        else Inr (text_stream ''Cats purr [1].''))\<rparr>"

definition search_state :: state where
  "search_state = initial_state\<lparr>currentAction := SEARCH, currentPrompt := ''cats''\<rparr>"





section \<open>Lemmas\<close>

subsection \<open>The retry controller\<close>

text \<open>
  What a run of the retry loop from \<open>attempt\<close> does: it makes \<open>k + 1\<close> provider calls, the
  first \<open>k\<close> of which failed with a quota error and were followed by a notice and a wait;
  the result is the outcome of the last call.
\<close>

lemma retry_loop_char:
  "attempt \<le> retries \<Longrightarrow> retry_loop w params retries attempt s = (res, s') \<Longrightarrow>
   \<exists>k. attempt + k \<le> retries
     \<and> s' = s\<lparr>tick := tick s + Suc k,
              sink := sink s @ map (\<lambda>a. retry_notice (backoff_delay a)) [attempt..<attempt + k],
              delays := delays s @ map backoff_delay [attempt..<attempt + k],
              trace := trace s @ replicate (Suc k) (NativeStreamCall (gp_model params))\<rparr>
     \<and> (\<forall>j<k. \<exists>e. generateContentStream w (tick s + j) params = Inl e \<and> isQuotaError e)
     \<and> res = generateContentStream w (tick s + k) params
     \<and> (attempt + k < retries \<longrightarrow> (\<forall>e. res = Inl e \<longrightarrow> \<not> isQuotaError e))"
proof (induction w params retries attempt s arbitrary: res s' rule: retry_loop.induct)
  case (1 w params retries attempt s)
  show ?case
  proof (cases "generateContentStream w (tick s) params")
    case (Inr g)
    with "1.prems" have "res = Inr g" "s' = emit (NativeStreamCall (gp_model params)) s"
      by (simp_all add: retry_loop.simps)
    then show ?thesis using Inr "1.prems"(1)
      by (auto simp add: emit_def intro!: exI[of _ 0])
  next
    case (Inl e)
    show ?thesis
    proof (cases "isQuotaError e \<and> attempt < retries")
      case False
      with "1.prems" Inl have "res = Inl e" "s' = emit (NativeStreamCall (gp_model params)) s"
        by (simp_all add: retry_loop.simps)
      then show ?thesis using Inl False "1.prems"(1)
        by (auto simp add: emit_def intro!: exI[of _ 0])
    next
      case True
      define s1 where "s1 = (onStreamChunk (retry_notice (backoff_delay attempt))
                      (emit (NativeStreamCall (gp_model params)) s))
                   \<lparr>delays := delays s @ [backoff_delay attempt]\<rparr>"
      from "1.prems" Inl True have run: "retry_loop w params retries (attempt + 1) s1 = (res, s')"
        by (simp add: retry_loop.simps[of w params retries attempt] s1_def)
      from True have le: "attempt + 1 \<le> retries" by simp
      from "1.IH"[OF _ Inl True le, of res s'] run "1.prems"(1)
      obtain k where k: "attempt + 1 + k \<le> retries"
        "s' = s1\<lparr>tick := tick s1 + Suc k,
              sink := sink s1 @ map (\<lambda>a. retry_notice (backoff_delay a)) [attempt + 1..<attempt + 1 + k],
              delays := delays s1 @ map backoff_delay [attempt + 1..<attempt + 1 + k],
              trace := trace s1 @ replicate (Suc k) (NativeStreamCall (gp_model params))\<rparr>"
        "\<forall>j<k. \<exists>e. generateContentStream w (tick s1 + j) params = Inl e \<and> isQuotaError e"
        "res = generateContentStream w (tick s1 + k) params"
        "attempt + 1 + k < retries \<longrightarrow> (\<forall>e. res = Inl e \<longrightarrow> \<not> isQuotaError e)"
        unfolding s1_def by blast
      have t1: "tick s1 = tick s + 1" by (simp add: s1_def emit_def onStreamChunk_def)
      have up: "[attempt..<attempt + Suc k] = attempt # [attempt + 1..<attempt + 1 + k]"
        by (simp add: upt_conv_Cons)
      show ?thesis
      proof (intro exI[of _ "Suc k"] conjI)
        show "attempt + Suc k \<le> retries" using k(1) by simp
        show "s' = s\<lparr>tick := tick s + Suc (Suc k),
              sink := sink s @ map (\<lambda>a. retry_notice (backoff_delay a)) [attempt..<attempt + Suc k],
              delays := delays s @ map backoff_delay [attempt..<attempt + Suc k],
              trace := trace s @ replicate (Suc (Suc k)) (NativeStreamCall (gp_model params))\<rparr>"
          unfolding k(2) up by (simp add: s1_def emit_def onStreamChunk_def)
        show "\<forall>j<Suc k. \<exists>e. generateContentStream w (tick s + j) params = Inl e \<and> isQuotaError e"
        proof (intro allI impI)
          fix j assume "j < Suc k"
          show "\<exists>e. generateContentStream w (tick s + j) params = Inl e \<and> isQuotaError e"
          proof (cases j)
            case 0 then show ?thesis using Inl True by simp
          next
            case (Suc j')
            with \<open>j < Suc k\<close> k(3) t1 show ?thesis by simp
          qed
        qed
        show "res = generateContentStream w (tick s + Suc k) params" using k(4) t1 by simp
        show "attempt + Suc k < retries \<longrightarrow> (\<forall>e. res = Inl e \<longrightarrow> \<not> isQuotaError e)"
          using k(5) by simp
      qed
    qed
  qed
qed



subsection \<open>The loop\<close>












subsection \<open>What the handlers return\<close>

lemma final_message_one: "\<exists>t. final_message i s = \<lparr>messages = [t]\<rparr>"
  by (simp add: final_message_def)

lemma case_SEARCH_not_Return: "fst (case_SEARCH w i s) \<noteq> Return r"
  by (simp add: case_SEARCH_def Let_def split: prod.splits sum.splits)












subsection \<open>The directive scan\<close>



subsection \<open>Matching literals and tags\<close>

lemma match_lit_eq:
  "match_lit (=) t s = (if str_startsWith s t then Some (drop (length t) s) else None)"
  by (induction "(=) :: char \<Rightarrow> char \<Rightarrow> bool" t s rule: match_lit.induct)
     (auto simp: str_startsWith_def)

lemma rx_at_Lit:
  "rx_at (Lit t) s = (if str_startsWith s t then Some (t, None) else None)"
proof (cases "str_startsWith s t")
  case True
  then have t: "take (length t) s = t" by (simp add: str_startsWith_def)
  then have "length (take (length t) s) = length t" by simp
  then have "length t \<le> length s" by simp
  with t True show ?thesis by (simp add: rx_at_def match_lit_eq)
next
  case False
  then show ?thesis by (simp add: rx_at_def match_lit_eq)
qed

lemma str_match_Lit: "str_match g (Lit t) = (if str_includes g t then Some (t, None) else None)"
  by (induction g) (auto simp: rx_at_Lit str_startsWith_def)






lemma ci_eq_refl [simp]: "ci_eq c c"
  by (simp add: ci_eq_def)






lemma scan_think_bare:
  assumes "deepMatch g = None" "searchMatch g = None" "str_match g (tag_rx ''THINK'') = None"
    "str_includes g ''<THINK>''"
  shows "scan_directives p g = Some (THINK, p)"
  using assms by (simp add: scan_directives_def thinkMatch_def js_or_def str_match_Lit group1_def)


subsection \<open>Steps of the state\<close>

lemma no_obs_simps [simp]:
  "no_obs []" "no_obs (e # es) = (\<not> is_observation e \<and> no_obs es)"
  "no_obs (xs @ ys) = (no_obs xs \<and> no_obs ys)"
  by (simp_all add: no_obs_def)

lemma no_obs_replicate [simp]: "no_obs (replicate k e) = (k = 0 \<or> \<not> is_observation e)"
  by (induction k) auto

lemma quiet_step_refl [simp]: "quiet_step s s"
  by (simp add: quiet_step_def)

lemma quiet_step_trans: "quiet_step s s1 \<Longrightarrow> quiet_step s1 s2 \<Longrightarrow> quiet_step s s2"
  by (auto simp: quiet_step_def)

lemma quiet_then_aborted: "quiet_step s s1 \<Longrightarrow> aborted_step i t s1 s2 \<Longrightarrow> aborted_step i t s s2"
  by (auto simp: quiet_step_def aborted_step_def)

lemma quiet_stepI:
  "trace s' = trace s @ new \<Longrightarrow> no_obs new \<Longrightarrow> tick s \<le> tick s' \<Longrightarrow> prompt_var s' = prompt_var s
   \<Longrightarrow> quiet_step s s'"
  by (auto simp: quiet_step_def)

lemma quiet_step_emit [simp]: "\<not> is_observation e \<Longrightarrow> quiet_step s (emit e s)"
  by (simp add: quiet_step_def emit_def)

lemma quiet_step_onStreamChunk [simp]: "quiet_step s (onStreamChunk t s)"
  by (simp add: quiet_step_def onStreamChunk_def)

lemma quiet_step_same:
  "trace s' = trace s \<Longrightarrow> tick s' = tick s \<Longrightarrow> prompt_var s' = prompt_var s \<Longrightarrow> quiet_step s s'"
  by (simp add: quiet_step_def)

lemma aborted_mono: "aborted i s \<Longrightarrow> tick s \<le> tick s' \<Longrightarrow> aborted i s'"
  by (auto simp: aborted_def split: option.splits)

lemma check_signal_False:
  "check_signal i s = (False, s1) \<Longrightarrow> \<not> aborted i s \<and> s1 = s\<lparr>tick := tick s + 1\<rparr>"
  by (auto simp: check_signal_def split: if_splits)

lemma check_signal_True:
  "check_signal i s = (True, s1) \<Longrightarrow> aborted i s \<and> s1 = emit (AbortObserved (finalResponseText s)) s"
  by (auto simp: check_signal_def split: if_splits)

lemma check_signal_False_quiet: "check_signal i s = (False, s1) \<Longrightarrow> quiet_step s s1"
  by (auto dest!: check_signal_False simp: quiet_step_def)

lemma check_signal_True_aborted:
  "check_signal i s = (True, s1) \<Longrightarrow>
   aborted_step i (finalResponseText s) s s1 \<and> finalResponseText s1 = finalResponseText s"
  by (auto dest!: check_signal_True simp: aborted_step_def emit_def aborted_def split: option.splits)

lemma retry_frame:
  assumes "generateContentStreamWithRetry w params 3 s = (res, s')"
  shows "quiet_step s s'"
    and "s' = s\<lparr>tick := tick s', sink := sink s', delays := delays s', trace := trace s'\<rparr>"
proof -
  from assms have run: "retry_loop w (default_model params) 3 0 s = (res, s')"
    by (simp add: generateContentStreamWithRetry_def)
  from retry_loop_char[OF _ run] obtain k where
    k: "s' = s\<lparr>tick := tick s + Suc k,
              sink := sink s @ map (\<lambda>a. retry_notice (backoff_delay a)) [0..<0 + k],
              delays := delays s @ map backoff_delay [0..<0 + k],
              trace := trace s @ replicate (Suc k) (NativeStreamCall (gp_model (default_model params)))\<rparr>"
    by auto
  show "quiet_step s s'"
    by (subst k, rule quiet_stepI[where new = "replicate (Suc k) (NativeStreamCall (gp_model (default_model params)))"])
       simp_all
  show "s' = s\<lparr>tick := tick s', sink := sink s', delays := delays s', trace := trace s'\<rparr>"
    by (subst (1 2 3 4 5) k) simp
qed



subsection \<open>Consuming streams\<close>

lemma simple_chunk_facts:
  "trace (simple_chunk g c s) = trace s" "tick (simple_chunk g c s) = tick s"
  "prompt_var (simple_chunk g c s) = prompt_var s"
  "finalResponseText (simple_chunk g c s) = finalResponseText s @ chunk_text c"
  "\<exists>gs. citations (metadataPayload (simple_chunk g c s)) = citations (metadataPayload s) @ gs"
  "\<not> g \<Longrightarrow> metadataPayload (simple_chunk g c s) = metadataPayload s"
  by (auto simp: simple_chunk_def Let_def onStreamChunk_def citations_def split: option.splits)

lemma quiet_step_simple_chunk [simp]: "quiet_step s (simple_chunk g c s)"
  by (rule quiet_step_same) (simp_all add: simple_chunk_facts)

lemma consumed_refl [simp]: "consumed i g r acc acc s s"
  by (simp add: consumed_def)

lemma consumed_check_True:
  "check_signal i s = (True, s1) \<Longrightarrow> consumed i g None acc acc s s1"
  using check_signal_True_aborted[of i s s1]
  by (auto simp: consumed_def dest!: check_signal_True simp: emit_def)

lemma consumed_quiet_pre:
  "quiet_step s s1 \<Longrightarrow> finalResponseText s1 = finalResponseText s
   \<Longrightarrow> metadataPayload s1 = metadataPayload s
   \<Longrightarrow> consumed i g r acc gen s1 s' \<Longrightarrow> consumed i g r acc gen s s'"
  by (auto simp: consumed_def intro: quiet_step_trans quiet_then_aborted)

lemma consumed_chunk:
  "consumed i g r (acc @ chunk_text c) gen (simple_chunk g c s) s' \<Longrightarrow> consumed i g r acc gen s s'"
  unfolding consumed_def
  apply (intro conjI)
     apply (auto simp: simple_chunk_facts)[1]
    apply (meson quiet_step_simple_chunk quiet_step_trans quiet_then_aborted)
   using simple_chunk_facts(5)[of g c s] apply (metis append.assoc)
  using simple_chunk_facts(6)[of g c s] apply simp
  done


lemma consume_native_consumed:
  "consume_native i g cs err acc s = ((r, gen), s') \<Longrightarrow> consumed i g r acc gen s s'"
proof (induction cs arbitrary: acc s)
  case Nil
  then show ?case by simp
next
  case (Cons c cs)
  obtain b s1 where cs1: "check_signal i s = (b, s1)" by (cases "check_signal i s")
  show ?case
  proof (cases b)
    case True
    with Cons.prems cs1 have "r = None" "gen = acc" "s' = s1" by simp_all
    with consumed_check_True[of i s s1 g acc] cs1 True show ?thesis by simp
  next
    case False
    from check_signal_False[of i s s1] cs1 False
    have s1: "s1 = s\<lparr>tick := tick s + 1\<rparr>" by simp
    have q: "quiet_step s s1" using check_signal_False_quiet cs1 False by simp
    show ?thesis
    proof (cases "chunk_text c = []")
      case True
      with Cons.prems cs1 False have "consume_native i g cs err acc s1 = ((r, gen), s')" by simp
      from Cons.IH[OF this] q s1 show ?thesis
        by (auto intro!: consumed_quiet_pre[of s s1])
    next
      case ne: False
      with Cons.prems cs1 False
      have "consume_native i g cs err (acc @ chunk_text c) (simple_chunk g c s1) = ((r, gen), s')"
        by simp
      from consumed_chunk[OF Cons.IH[OF this]] q s1 show ?thesis
        by (auto intro!: consumed_quiet_pre[of s s1])
    qed
  qed
qed

lemma consume_native_error:
  "consume_native i g cs err acc s = ((Some e, gen), s') \<Longrightarrow> quiet_step s s'"
  by (drule consume_native_consumed) (simp add: consumed_def)

lemma relay_yields_consumed:
  "relay_yields i ds acc s = ((b, gen), s') \<Longrightarrow>
   consumed i False None acc gen s s' \<and> (\<not> b \<longrightarrow> quiet_step s s')"
proof (induction ds arbitrary: acc s)
  case Nil
  then show ?case by simp
next
  case (Cons d ds)
  show ?case
  proof (cases "d = []")
    case True
    with Cons.prems have "relay_yields i ds acc s = ((b, gen), s')" by simp
    from Cons.IH[OF this] show ?thesis .
  next
    case ne: False
    obtain b0 s1 where cs1: "check_signal i s = (b0, s1)" by (cases "check_signal i s")
    show ?thesis
    proof (cases b0)
      case True
      with Cons.prems cs1 ne have "b" "gen = acc" "s' = s1" by simp_all
      with consumed_check_True[of i s s1 False acc] cs1 True show ?thesis by simp
    next
      case False
      let ?c = "\<lparr>chunk_text = d, chunk_groundingChunks = None\<rparr>"
      from check_signal_False[of i s s1] cs1 False
      have s1: "s1 = s\<lparr>tick := tick s + 1\<rparr>" by simp
      have q: "quiet_step s s1" using check_signal_False_quiet cs1 False by simp
      from Cons.prems cs1 False ne
      have run: "relay_yields i ds (acc @ chunk_text ?c) (simple_chunk False ?c s1) = ((b, gen), s')"
        by simp
      from Cons.IH[OF run]
      have c: "consumed i False None (acc @ chunk_text ?c) gen (simple_chunk False ?c s1) s'"
        and nb: "\<not> b \<longrightarrow> quiet_step (simple_chunk False ?c s1) s'" by simp_all
      from consumed_chunk[OF c] q s1 have "consumed i False None acc gen s s'"
        by (auto intro!: consumed_quiet_pre[of s s1])
      moreover have "\<not> b \<longrightarrow> quiet_step s s'"
        using nb q by (meson quiet_step_simple_chunk quiet_step_trans)
      ultimately show ?thesis by simp
    qed
  qed
qed

lemma consumed_weaken_None: "consumed i g None acc gen s s' \<Longrightarrow> quiet_step s s' \<Longrightarrow> consumed i g r acc gen s s'"
  by (auto simp: consumed_def)

lemma consumed_trans:
  "consumed i g None acc gen1 s s1 \<Longrightarrow> quiet_step s s1 \<Longrightarrow> consumed i g r gen1 gen s1 s'
   \<Longrightarrow> consumed i g r acc gen s s'"
  unfolding consumed_def
  apply (intro conjI)
     apply auto[1]
    apply (meson quiet_step_trans quiet_then_aborted)
   apply (metis append.assoc)
  apply simp
  done

lemma relay_reads_consumed:
  "relay_reads i rs err acc s = ((r, gen), s') \<Longrightarrow> consumed i False r acc gen s s'"
proof (induction rs arbitrary: acc s)
  case Nil
  obtain b s1 where cs1: "check_signal i s = (b, s1)" by (cases "check_signal i s")
  show ?case
  proof (cases b)
    case True
    with Nil cs1 have "r = None" "gen = acc" "s' = s1" by simp_all
    with consumed_check_True[of i s s1 False acc] cs1 True show ?thesis by simp
  next
    case False
    from check_signal_False[of i s s1] cs1 False
    have s1: "s1 = s\<lparr>tick := tick s + 1\<rparr>" by simp
    from Nil cs1 False have "gen = acc" "s' = emit RelayRead s1" by simp_all
    then show ?thesis using s1
      by (auto simp: consumed_def emit_def intro!: quiet_stepI[where new = "[RelayRead]"])
  qed
next
  case (Cons rd rs)
  obtain b s1 where cs1: "check_signal i s = (b, s1)" by (cases "check_signal i s")
  show ?case
  proof (cases b)
    case True
    with Cons.prems cs1 have "r = None" "gen = acc" "s' = s1" by simp_all
    with consumed_check_True[of i s s1 False acc] cs1 True show ?thesis by simp
  next
    case False
    from check_signal_False[of i s s1] cs1 False
    have s1: "s1 = s\<lparr>tick := tick s + 1\<rparr>" by simp
    have q: "quiet_step s (emit RelayRead s1)"
      using s1 by (auto simp: emit_def intro!: quiet_stepI[where new = "[RelayRead]"])
    have same: "finalResponseText (emit RelayRead s1) = finalResponseText s"
      "metadataPayload (emit RelayRead s1) = metadataPayload s"
      using s1 by (simp_all add: emit_def)
    obtain b2 t s2 where y: "relay_yields i rd acc (emit RelayRead s1) = ((b2, t), s2)"
      by (metis surj_pair)
    from relay_yields_consumed[OF y]
    have c: "consumed i False None acc t (emit RelayRead s1) s2"
      and nb: "\<not> b2 \<longrightarrow> quiet_step (emit RelayRead s1) s2" by simp_all
    show ?thesis
    proof (cases b2)
      case True
      with Cons.prems cs1 False y have "r = None" "gen = t" "s' = s2" by simp_all
      with c show ?thesis by (auto intro: consumed_quiet_pre[OF q same])
    next
      case nb2: False
      with Cons.prems cs1 False y have "relay_reads i rs err t s2 = ((r, gen), s')" by simp
      from Cons.IH[OF this] have "consumed i False r t gen s2 s'" .
      with c nb nb2 have "consumed i False r acc gen (emit RelayRead s1) s'"
        by (auto intro: consumed_trans)
      then show ?thesis by (rule consumed_quiet_pre[OF q same])
    qed
  qed
qed

lemma consume_relay_consumed:
  "consume_relay w i key m msgs sys s = ((r, gen), s') \<Longrightarrow> consumed i False r [] gen s s'"
proof -
  assume a: "consume_relay w i key m msgs sys s = ((r, gen), s')"
  let ?s1 = "emit (RelayFetch m) s"
  have q: "quiet_step s ?s1" by simp
  have same: "finalResponseText ?s1 = finalResponseText s" "metadataPayload ?s1 = metadataPayload s"
    by (simp_all add: emit_def)
  have "consumed i False r [] gen ?s1 s'"
    using a relay_reads_consumed[of i _ _ "[]" ?s1 r gen s']
    by (auto simp: consume_relay_def Let_def split: sum.splits if_splits option.splits prod.splits)
  then show ?thesis by (rule consumed_quiet_pre[OF q same])
qed

lemma consumed_g: "consumed i False r acc gen s s' \<Longrightarrow> consumed i g r acc gen s s'"
  by (cases g) (auto simp: consumed_def)

lemma consume_consumed:
  "consume w i g generator s = ((r, gen), s') \<Longrightarrow> consumed i g r [] gen s s'"
proof (cases generator)
  case (NativeGen st)
  assume "consume w i g generator s = ((r, gen), s')"
  with NativeGen show ?thesis
    by (cases st) (auto dest: consume_native_consumed)
next
  case (RelayGen key m msgs sys)
  assume "consume w i g generator s = ((r, gen), s')"
  with RelayGen show ?thesis
    by (auto dest!: consume_relay_consumed intro: consumed_g)
qed



subsection \<open>The handlers as steps\<close>

lemma aborted_step_same:
  "aborted_step i t s s1 \<Longrightarrow> trace s2 = trace s1 \<Longrightarrow> tick s2 = tick s1
   \<Longrightarrow> prompt_var s2 = prompt_var s1 \<Longrightarrow> aborted_step i t s s2"
  by (auto simp: aborted_step_def aborted_def split: option.splits)

lemma handled_quiet: "quiet_step s s' \<Longrightarrow> handled i out s s'"
  by (simp add: handled_def)

lemma handled_quiet_pre: "quiet_step s s1 \<Longrightarrow> handled i out s1 s' \<Longrightarrow> handled i out s s'"
  by (auto simp: handled_def intro: quiet_step_trans quiet_then_aborted)

lemma research_progress_quiet: "quiet_step s (research_progress i ms s)"
proof (induction ms arbitrary: s)
  case Nil
  show ?case by simp
next
  case (Cons m ms)
  let ?s1 = "(if aborted i s then s else onStreamChunk (nl @ ''*'' @ m @ ''*'') s)\<lparr>tick := tick s + 1\<rparr>"
  have "quiet_step s ?s1"
    by (rule quiet_stepI[where new = "[]"]) (simp_all add: onStreamChunk_def)
  with Cons[of ?s1] show ?case by (auto intro: quiet_step_trans)
qed

lemma case_SEARCH_quiet: "quiet_step s (snd (case_SEARCH w i s))"
proof -
  let ?s1 = "onStreamChunk (nl @ ''Searching sources...'' @ nl) s"
  obtain msgs res where r: "deepResearch w (tick ?s1) (currentPrompt ?s1) = (msgs, res)"
    by (metis surj_pair)
  let ?s2 = "research_progress i msgs (emit (ResearchCall (currentPrompt ?s1)) ?s1)"
  have q2: "quiet_step s ?s2"
    by (meson quiet_step_onStreamChunk quiet_step_emit is_observation.simps quiet_step_trans
        research_progress_quiet)
  have "quiet_step ?s2 (snd (case_SEARCH w i s))"
    using r by (auto simp: case_SEARCH_def Let_def intro!: quiet_step_same split: sum.splits)
  with q2 show ?thesis by (rule quiet_step_trans)
qed

lemma consumed_handled_return:
  assumes "consumed i g None acc gen s s'"
  shows "handled i (Return (final_message i s')) s s'"
  using assms by (auto simp: consumed_def handled_def)

lemma consumed_error_quiet: "consumed i g (Some e) acc gen s s' \<Longrightarrow> quiet_step s s'"
  by (simp add: consumed_def)

lemma case_THINK_handled: "case_THINK w i s = (out, s') \<Longrightarrow> handled i out s s'"
proof -
  assume a: "case_THINK w i s = (out, s')"
  let ?s1 = "(if \<not> supports_thinking (model_var s) then s\<lparr>model_var := flash\<rparr> else s)"
  let ?s2 = "onStreamChunk (nl @ ''Thinking deeply...'' @ nl) ?s1"
  let ?s3 = "emit ThinkingCountCall ?s2"
  have q3: "quiet_step s ?s3"
    by (rule quiet_stepI[where new = "[ThinkingCountCall]"]) (simp_all add: emit_def onStreamChunk_def)
  show ?thesis
  proof (cases "incrementThinkingCount w (tick ?s2)")
    case (Some e)
    with a have "s' = ?s3" by (simp add: case_THINK_def Let_def)
    with q3 show ?thesis by (simp add: handled_quiet)
  next
    case None
    let ?p = "\<lparr>gp_model = model_var ?s3,
                      gp_contents = Turns (history_contents ''model'' (history i)
                                           @ [user_content [Text (contextBlock ?s3)] (contextBlock ?s3)]),
                      gp_systemInstruction = None, gp_googleSearch = False,
                      gp_thinkingBudget = Some (if thinkingBudget s > 0 then thinkingBudget s else 2048), gp_responseMimeType = None\<rparr>"
    obtain res s4 where g: "generateContentStreamWithRetry w ?p 3 ?s3 = (res, s4)"
      by (cases "generateContentStreamWithRetry w ?p 3 ?s3")
    have q4: "quiet_step s s4" using q3 retry_frame(1)[OF g] by (rule quiet_step_trans)
    show ?thesis
    proof (cases res)
      case (Inl e)
      with a None g have "s' = s4" by (simp add: case_THINK_def Let_def)
      with q4 show ?thesis by (simp add: handled_quiet)
    next
      case (Inr st)
      obtain cs err where st: "st = (cs, err)" by (cases st)
      obtain r t s5 where c: "consume_native i False cs err [] s4 = ((r, t), s5)"
        by (metis surj_pair)
      from consume_native_consumed[OF c] have cons: "consumed i False r [] t s4 s5" .
      show ?thesis
      proof (cases r)
        case (Some e)
        with a None g Inr st c have "s' = s5" by (simp add: case_THINK_def Let_def)
        with cons Some q4 show ?thesis
          by (auto intro!: handled_quiet dest!: consumed_error_quiet intro: quiet_step_trans)
      next
        case rn: None
        with a None g Inr st c have "s' = s5" "out = Return (final_message i s5)"
          by (auto simp add: case_THINK_def Let_def)
        with cons rn q4 show ?thesis
          by (auto intro: handled_quiet_pre consumed_handled_return)
      qed
    qed
  qed
qed

lemma case_STUDY_handled: "case_STUDY w i s = (out, s') \<Longrightarrow> handled i out s s'"
proof (cases "isGoogleModel (model_var s)")
  case False
  assume "case_STUDY w i s = (out, s')"
  with False show ?thesis
    by (auto simp: case_STUDY_def intro!: handled_quiet quiet_step_same)
next
  case True
  assume a: "case_STUDY w i s = (out, s')"
  let ?s1 = "onStreamChunk (nl @ ''Creating study plan...'' @ nl) s"
  let ?p = "\<lparr>gp_model = flash,
                 gp_contents = Plain (''Create a structured study plan for: '' @ currentPrompt ?s1
                     @ ''. Include learning objectives and key concepts.''),
                 gp_systemInstruction = None, gp_googleSearch = False,
                 gp_thinkingBudget = None, gp_responseMimeType = None\<rparr>"
  obtain res s2 where g: "generateContentStreamWithRetry w ?p 3 ?s1 = (res, s2)"
    by (cases "generateContentStreamWithRetry w ?p 3 ?s1")
  have q2: "quiet_step s s2"
    using quiet_step_onStreamChunk retry_frame(1)[OF g] by (rule quiet_step_trans)
  show ?thesis
  proof (cases res)
    case (Inl e)
    with a True g have "s' = s2" by (simp add: case_STUDY_def Let_def)
    with q2 show ?thesis by (simp add: handled_quiet)
  next
    case (Inr st)
    obtain cs err where st: "st = (cs, err)" by (cases st)
    obtain r t s3 where c: "consume_native i False cs err [] s2 = ((r, t), s3)"
      by (metis surj_pair)
    from consume_native_consumed[OF c] have cons: "consumed i False r [] t s2 s3" .
    show ?thesis
    proof (cases r)
      case (Some e)
      with a True g Inr st c have "s' = s3" by (simp add: case_STUDY_def Let_def)
      with cons Some q2 show ?thesis
        by (auto intro!: handled_quiet dest!: consumed_error_quiet intro: quiet_step_trans)
    next
      case rn: None
      with a True g Inr st c have "s' = s3" "out = Return (final_message i s3)"
        by (auto simp add: case_STUDY_def Let_def)
      with cons rn q2 show ?thesis
        by (auto intro: handled_quiet_pre consumed_handled_return)
    qed
  qed
qed

lemma case_IMAGE_quiet: "quiet_step s (snd (case_IMAGE w i s))"
  by (auto simp: quiet_step_def case_IMAGE_def Let_def emit_def onStreamChunk_def split: sum.splits)

lemma case_CANVAS_quiet: "quiet_step s (snd (case_CANVAS w i s))"
  by (auto simp: quiet_step_def case_CANVAS_def Let_def emit_def split: sum.splits list.splits)

lemma case_PROJECT_quiet: "quiet_step s (snd (case_PROJECT w i s))"
  by (auto simp: quiet_step_def case_PROJECT_def Let_def emit_def onStreamChunk_def split: sum.splits)



subsection \<open>The SIMPLE handler\<close>

lemma fx_only_refl [simp]: "fx_only s s"
  by (simp add: fx_only_def)

lemma fx_only_fields:
  assumes "fx_only s s'"
  shows "finalResponseText s' = finalResponseText s" "metadataPayload s' = metadataPayload s"
    "prompt_var s' = prompt_var s" "currentAction s' = currentAction s"
    "currentPrompt s' = currentPrompt s" "fallbackSearchContext s' = fallbackSearchContext s"
    "isNative s' = isNative s" "model_var s' = model_var s"
    "routing_parameters s' = routing_parameters s" "openRouterKey s' = openRouterKey s"
proof -
  from assms have e: "s' = s\<lparr>tick := tick s', sink := sink s', delays := delays s', trace := trace s'\<rparr>"
    by (simp add: fx_only_def)
  show "finalResponseText s' = finalResponseText s" by (subst e) simp
  show "metadataPayload s' = metadataPayload s" by (subst e) simp
  show "prompt_var s' = prompt_var s" by (subst e) simp
  show "currentAction s' = currentAction s" by (subst e) simp
  show "currentPrompt s' = currentPrompt s" by (subst e) simp
  show "fallbackSearchContext s' = fallbackSearchContext s" by (subst e) simp
  show "isNative s' = isNative s" by (subst e) simp
  show "model_var s' = model_var s" by (subst e) simp
  show "routing_parameters s' = routing_parameters s" by (subst e) simp
  show "openRouterKey s' = openRouterKey s" by (subst e) simp
qed

lemma fx_only_trans: "fx_only s s1 \<Longrightarrow> fx_only s1 s2 \<Longrightarrow> fx_only s s2"
  unfolding fx_only_def by (metis (no_types, lifting) state.update_convs(1-4) state.surjective state.select_convs(1-4))

lemma fx_only_emit [simp]: "fx_only s (emit e s)"
  by (simp add: fx_only_def emit_def)

lemma fx_only_onStreamChunk [simp]: "fx_only s (onStreamChunk t s)"
  by (simp add: fx_only_def onStreamChunk_def)

lemma retry_fx_only: "generateContentStreamWithRetry w params 3 s = (res, s') \<Longrightarrow> fx_only s s'"
  using retry_frame(2) by (simp add: fx_only_def)

lemma read_inline_files_step:
  "read_inline_files w fs ps s = (r, s') \<Longrightarrow> quiet_step s s' \<and> fx_only s s'"
proof (induction fs arbitrary: ps s)
  case Nil
  then show ?case by simp
next
  case (Cons f fs)
  let ?s1 = "emit (FileReadCall (file_name f)) s"
  have q: "quiet_step s ?s1" "fx_only s ?s1" by simp_all
  show ?case
  proof (cases "readAsDataURL w (tick s) f")
    case (Inl e)
    with Cons.prems have "s' = ?s1" by simp
    with q show ?thesis by simp
  next
    case (Inr res)
    with Cons.prems obtain ps' where "read_inline_files w fs ps' ?s1 = (r, s')" by simp
    from Cons.IH[OF this] show ?thesis
      using quiet_step_trans[OF q(1)] fx_only_trans[OF q(2)] by blast
  qed
qed

lemma simple_history_step:
  "simple_history w i s = (r, s') \<Longrightarrow> quiet_step s s' \<and> fx_only s s'"
  by (auto simp: simple_history_def Let_def split: if_splits prod.splits sum.splits
      dest: read_inline_files_step)

lemma simple_generator_step:
  "simple_generator w h s = (r, s') \<Longrightarrow> quiet_step s s' \<and> fx_only s s'"
  by (auto simp: simple_generator_def streamOpenRouter_def split: if_splits prod.splits sum.splits
      dest: retry_frame(1) retry_fx_only)

lemma simple_finish_cases:
  assumes "simple_finish i gen s = (out, s')"
  shows "trace s' = trace s \<and> tick s' = tick s \<and> prompt_var s' = prompt_var s
         \<and> metadataPayload s' = metadataPayload s
         \<and> ((out = Continue \<and> finalResponseText s' = finalResponseText s
               \<and> scan_directives (prompt_var s) gen = Some (currentAction s', currentPrompt s'))
             \<or> (out = Return (final_message i s') \<and> scan_directives (prompt_var s) gen = None
                 \<and> fallbackSearchContext s' = fallbackSearchContext s
                 \<and> (finalResponseText s' = finalResponseText s
                      \<or> (str_trim (finalResponseText s) = [] \<and> fallbackSearchContext s \<noteq> []
                          \<and> finalResponseText s' = fallbackSearchContext s))))"
  using assms
  by (auto simp: simple_finish_def Let_def onStreamChunk_def split: option.splits if_splits)

lemma case_SIMPLE_char:
  assumes a: "case_SIMPLE w i s = (out, s')"
  shows "handled i out s s'"
    and "out = Continue \<longrightarrow>
          (\<exists>g. finalResponseText s' = finalResponseText s @ g
               \<and> scan_directives (prompt_var s) g = Some (currentAction s', currentPrompt s'))"
    and "\<exists>gs. citations (metadataPayload s') = citations (metadataPayload s) @ gs"
proof -
  obtain r1 s1 where h: "simple_history w i s = (r1, s1)" by (cases "simple_history w i s")
  from simple_history_step[OF h] have q1: "quiet_step s s1" and f1: "fx_only s s1" by simp_all
  have "handled i out s s'
    \<and> (out = Continue \<longrightarrow>
          (\<exists>g. finalResponseText s' = finalResponseText s @ g
               \<and> scan_directives (prompt_var s) g = Some (currentAction s', currentPrompt s')))
    \<and> (\<exists>gs. citations (metadataPayload s') = citations (metadataPayload s) @ gs)"
  proof (cases r1)
    case (Inl e)
    with a h have "s' = s1" "out = Throw e" by (simp_all add: case_SIMPLE_def)
    with q1 f1 show ?thesis by (simp add: handled_quiet fx_only_fields)
  next
    case (Inr hm)
    obtain r2 s2 where g: "simple_generator w hm s1 = (r2, s2)" by (cases "simple_generator w hm s1")
    from simple_generator_step[OF g] have q2: "quiet_step s1 s2" and f2: "fx_only s1 s2" by simp_all
    have q12: "quiet_step s s2" using q1 q2 by (rule quiet_step_trans)
    have f12: "fx_only s s2" using f1 f2 by (rule fx_only_trans)
    show ?thesis
    proof (cases r2)
      case (Inl e)
      with a h Inr g have "s' = s2" "out = Throw e" by (simp_all add: case_SIMPLE_def)
      with q12 f12 show ?thesis by (simp add: handled_quiet fx_only_fields)
    next
      case gen: (Inr gu)
      obtain generator usedFallback where gu: "gu = (generator, usedFallback)" by (cases gu)
      obtain r3 t s3 where c: "consume w i (isNative s2 \<or> usedFallback) generator s2 = ((r3, t), s3)"
        by (metis surj_pair)
      from consume_consumed[OF c]
      have cons: "consumed i (isNative s2 \<or> usedFallback) r3 [] t s2 s3" .
      then have ftx: "finalResponseText s3 = finalResponseText s @ t"
        and md: "\<exists>gs. citations (metadataPayload s3) = citations (metadataPayload s) @ gs"
        using f12 by (auto simp: consumed_def fx_only_fields)
      show ?thesis
      proof (cases r3)
        case (Some e)
        with a h Inr g gen gu c have "s' = s3" "out = Throw e" by (simp_all add: case_SIMPLE_def)
        with cons Some q12 md show ?thesis
          by (auto intro!: handled_quiet dest!: consumed_error_quiet intro: quiet_step_trans)
      next
        case None
        with a h Inr g gen gu c have fin: "simple_finish i t s3 = (out, s')"
          by (simp add: case_SIMPLE_def)
        note fc = simple_finish_cases[OF fin]
        from cons None have "quiet_step s2 s3 \<or> aborted_step i (finalResponseText s3) s2 s3"
          unfolding consumed_def by blast
        then have "handled i out s2 s'"
        proof
          assume "quiet_step s2 s3"
          moreover have "quiet_step s3 s'" using fc by (auto intro: quiet_step_same)
          ultimately show ?thesis by (auto intro: handled_quiet quiet_step_trans)
        next
          assume "aborted_step i (finalResponseText s3) s2 s3"
          then have "aborted_step i (finalResponseText s3) s2 s'"
            using fc by (auto intro: aborted_step_same)
          then show ?thesis using fc unfolding handled_def by auto
        qed
        then have "handled i out s s'" using q12 by (rule handled_quiet_pre[rotated])
        moreover have "prompt_var s3 = prompt_var s"
          using cons q12 by (auto simp: consumed_def quiet_step_def aborted_step_def)
        ultimately show ?thesis using fc ftx md by auto
      qed
    qed
  qed
  then show "handled i out s s'"
    and "out = Continue \<longrightarrow>
          (\<exists>g. finalResponseText s' = finalResponseText s @ g
               \<and> scan_directives (prompt_var s) g = Some (currentAction s', currentPrompt s'))"
    and "\<exists>gs. citations (metadataPayload s') = citations (metadataPayload s) @ gs"
    by simp_all
qed

lemma switch_action_handled: "switch_action w i s = (out, s') \<Longrightarrow> handled i out s s'"
  using case_SEARCH_quiet[of s w i] case_IMAGE_quiet[of s w i] case_CANVAS_quiet[of s w i]
    case_PROJECT_quiet[of s w i]
  by (auto simp: switch_action_def split: RouterAction.splits
      intro: case_THINK_handled case_STUDY_handled case_SIMPLE_char(1) handled_quiet)

lemma handled_prompt_var: "handled i out s s' \<Longrightarrow> prompt_var s' = prompt_var s"
  by (auto simp: handled_def quiet_step_def aborted_step_def)



subsection \<open>The loop and the signal\<close>














subsection \<open>Before the loop\<close>

lemma select_model_trace [simp]: "trace (select_model i s) = trace s"
  by (simp add: select_model_def Let_def onStreamChunk_def)





lemma try_setup_prompt_var:
  "try_setup w i s0 = (None, s1) \<Longrightarrow>
   prompt_var s1 = (case youtube_rewrite (prompt i) of Some q \<Rightarrow> q | None \<Rightarrow> prompt i)
   \<and> currentPrompt s1 = prompt_var s1"
  by (auto simp: try_setup_def Let_def emit_def onStreamChunk_def split: sum.splits if_splits)



subsection \<open>The search handler\<close>


lemma case_SEARCH_ok:
  assumes "snd (deepResearch w (tick s) (currentPrompt s)) = Inr result"
  shows "fst (case_SEARCH w i s) = Continue"
    and "currentAction (snd (case_SEARCH w i s)) = SIMPLE"
    and "currentPrompt (snd (case_SEARCH w i s)) = synthesisPrompt (currentPrompt s) (answer result)"
    and "fallbackSearchContext (snd (case_SEARCH w i s)) = answer result"
    and "metadataPayload (snd (case_SEARCH w i s))
         = (if sources result \<noteq> [] then Some (map (source_grounding w) (sources result))
            else metadataPayload s)"
    and "trace (snd (case_SEARCH w i s)) = trace s @ [ResearchCall (currentPrompt s)]"
proof -
  obtain msgs where r: "deepResearch w (tick s) (currentPrompt s) = (msgs, Inr result)"
    using assms by (cases "deepResearch w (tick s) (currentPrompt s)") auto
  have rp: "trace (research_progress i ms t) = trace t
            \<and> metadataPayload (research_progress i ms t) = metadataPayload t
            \<and> currentPrompt (research_progress i ms t) = currentPrompt t" for ms t
    by (induction ms arbitrary: t) (auto simp: onStreamChunk_def)
  show "fst (case_SEARCH w i s) = Continue"
    using r by (simp add: case_SEARCH_def Let_def onStreamChunk_def)
  show "currentAction (snd (case_SEARCH w i s)) = SIMPLE"
    using r by (simp add: case_SEARCH_def Let_def onStreamChunk_def)
  show "currentPrompt (snd (case_SEARCH w i s)) = synthesisPrompt (currentPrompt s) (answer result)"
    using r by (simp add: case_SEARCH_def Let_def onStreamChunk_def rp emit_def)
  show "fallbackSearchContext (snd (case_SEARCH w i s)) = answer result"
    using r by (simp add: case_SEARCH_def Let_def onStreamChunk_def)
  show "metadataPayload (snd (case_SEARCH w i s))
         = (if sources result \<noteq> [] then Some (map (source_grounding w) (sources result))
            else metadataPayload s)"
    using r by (simp add: case_SEARCH_def Let_def onStreamChunk_def rp emit_def)
  show "trace (snd (case_SEARCH w i s)) = trace s @ [ResearchCall (currentPrompt s)]"
    using r by (simp add: case_SEARCH_def Let_def onStreamChunk_def rp emit_def)
qed

lemma simple_finish_search_cats:
  "simple_finish i ''<SEARCH>cats</SEARCH>'' s
   = (Continue, s\<lparr>currentAction := SEARCH, currentPrompt := ''cats'',
                   routing_parameters := routing_parameters s\<rparr>)"
proof -
  have "scan_directives (prompt_var s) ''<SEARCH>cats</SEARCH>'' = Some (SEARCH, ''cats'')"
    by (simp add: scan_directives_def deepMatch_def searchMatch_def js_or_def tag_rx_def
        search_deep_rx_def rx_at_def ci_eq_def ascii_upper_def dot_def is_line_terminator_def group1_def)
  then show ?thesis by (simp add: simple_finish_def)
qed




subsection \<open>The trace only grows\<close>










subsection \<open>The citations\<close>












section \<open>The claims\<close>

subsection \<open>The retry policy\<close>

text \<open>
  Claim C3, as the code has it. With the three retries every caller passes, the controller
  makes between one and four provider calls. It retries only after a quota error (status
  429, or a message containing \<open>429\<close> or \<open>quota\<close>), waiting \<open>2^attempt * 2000 + 1000\<close> ms
  before each retry (3000, 5000, 9000). The outcome of the last call is the outcome of the
  controller: a success, a non-quota error (raised at once, with no retry), or, after four
  quota errors, the fourth quota error itself. If the calls at attempts 0 and 1 fail with a
  quota error and the call at attempt 2 succeeds, the controller succeeds after waiting
  3000 ms and 5000 ms.
\<close>

theorem retry_policy:
  assumes "generateContentStreamWithRetry w params 3 s = (res, s')"
  shows "(\<exists>k\<le>3.
            trace s' = trace s @ replicate (Suc k) (NativeStreamCall (gp_model (default_model params)))
          \<and> delays s' = delays s @ take k [3000, 5000, 9000]
          \<and> (\<forall>j<k. \<exists>e. generateContentStream w (tick s + j) (default_model params) = Inl e
                         \<and> isQuotaError e)
          \<and> res = generateContentStream w (tick s + k) (default_model params)
          \<and> (k < 3 \<longrightarrow> (\<forall>e. res = Inl e \<longrightarrow> \<not> isQuotaError e)))
       \<and> (\<forall>e0 e1 g.
            generateContentStream w (tick s) (default_model params) = Inl e0 \<and> isQuotaError e0
          \<and> generateContentStream w (tick s + 1) (default_model params) = Inl e1 \<and> isQuotaError e1
          \<and> generateContentStream w (tick s + 2) (default_model params) = Inr g
          \<longrightarrow> res = Inr g \<and> delays s' = delays s @ [3000, 5000])"
proof -
  let ?p = "default_model params"
  from assms have run: "retry_loop w ?p 3 0 s = (res, s')"
    by (simp add: generateContentStreamWithRetry_def)
  from retry_loop_char[OF _ run] obtain k where k: "k \<le> 3"
    "s' = s\<lparr>tick := tick s + Suc k,
              sink := sink s @ map (\<lambda>a. retry_notice (backoff_delay a)) [0..<k],
              delays := delays s @ map backoff_delay [0..<k],
              trace := trace s @ replicate (Suc k) (NativeStreamCall (gp_model ?p))\<rparr>"
    "\<forall>j<k. \<exists>e. generateContentStream w (tick s + j) ?p = Inl e \<and> isQuotaError e"
    "res = generateContentStream w (tick s + k) ?p"
    "k < 3 \<longrightarrow> (\<forall>e. res = Inl e \<longrightarrow> \<not> isQuotaError e)"
    by auto
  have upt3: "[0..<3] = [0, 1, 2::nat]" by (simp add: upt_conv_Cons)
  have "map backoff_delay [0..<3] = [3000, 5000, 9000]"
    by (simp add: upt3 backoff_delay_def)
  then have dl: "map backoff_delay [0..<k] = take k [3000, 5000, 9000]"
    using k(1) by (metis take_map take_upt add_0 )
  have first: "\<exists>k\<le>3.
            trace s' = trace s @ replicate (Suc k) (NativeStreamCall (gp_model ?p))
          \<and> delays s' = delays s @ take k [3000, 5000, 9000]
          \<and> (\<forall>j<k. \<exists>e. generateContentStream w (tick s + j) ?p = Inl e \<and> isQuotaError e)
          \<and> res = generateContentStream w (tick s + k) ?p
          \<and> (k < 3 \<longrightarrow> (\<forall>e. res = Inl e \<longrightarrow> \<not> isQuotaError e))"
    using k dl by (intro exI[of _ k]) simp
  have second: "res = Inr g \<and> delays s' = delays s @ [3000, 5000]"
    if h: "generateContentStream w (tick s) ?p = Inl e0" "isQuotaError e0"
          "generateContentStream w (tick s + 1) ?p = Inl e1" "isQuotaError e1"
          "generateContentStream w (tick s + 2) ?p = Inr g" for e0 e1 g
  proof -
    have "k \<noteq> 0"
    proof
      assume "k = 0"
      with k(4,5) h(1,2) show False by simp
    qed
    moreover have "k \<noteq> 1"
    proof
      assume "k = 1"
      with k(4,5) h(3,4) show False by simp
    qed
    moreover have "k \<noteq> 3"
    proof
      assume "k = 3"
      with k(3) have "2 < k \<longrightarrow> (\<exists>e. generateContentStream w (tick s + 2) ?p = Inl e \<and> isQuotaError e)"
        by blast
      with \<open>k = 3\<close> have "\<exists>e. generateContentStream w (tick s + 2) ?p = Inl e \<and> isQuotaError e"
        by simp
      with h(5) show False by simp
    qed
    ultimately have "k = 2" using k(1) by arith
    then show ?thesis using k(2,4) h(5) dl by simp
  qed
  show ?thesis using first second by blast
qed

text \<open>The scenario of claim C3 on a provider that is over quota at ticks 0 and 1.\<close>

theorem retry_policy_witness:
  "fst (generateContentStreamWithRetry world_two_429 params0 3 initial_state) = Inr hello_stream
   \<and> delays (snd (generateContentStreamWithRetry world_two_429 params0 3 initial_state)) = [3000, 5000]"
  using retry_policy[OF surjective_pairing, of world_two_429 params0 initial_state]
  by (simp add: world_two_429_def world0_def initial_state_def default_model_def params0_def
        isQuotaError_def error_429_def)

text \<open>
  Claim C3 as written fails: on a provider that is over quota on all four attempts the
  controller raises the provider's own error, not \<open>Max retries exceeded\<close>.
\<close>

theorem retry_exhausted_counterexample:
  "isQuotaError error_429
   \<and> fst (generateContentStreamWithRetry world_always_429 params0 3 initial_state) = Inl error_429
   \<and> fst (generateContentStreamWithRetry world_always_429 params0 3 initial_state)
       \<noteq> Inl (Error ''Max retries exceeded'')
   \<and> delays (snd (generateContentStreamWithRetry world_always_429 params0 3 initial_state))
       = [3000, 5000, 9000]"
  by (simp add: generateContentStreamWithRetry_def retry_loop.simps world_always_429_def
        world0_def initial_state_def default_model_def params0_def isQuotaError_def error_429_def
        Error_def emit_def onStreamChunk_def backoff_delay_def)



subsection \<open>The loop bound\<close>



subsection \<open>One turn for each invocation\<close>




subsection \<open>The relay fallback\<close>

text \<open>
  Claim C2 at a relay model that no provider serves. The \<open>catch\<close> that holds the
  fallback surrounds only the call of \<open>streamOpenRouter\<close>, which cannot throw; the error
  is thrown when the generator is consumed, outside that \<open>try\<close>. The invocation returns
  the error as text: no notice reaches the sink and the native provider is never called.
\<close>

theorem relay_unavailable_not_recovered:
  "fst (runAutonomousAgent world_relay_404 input_relay)
     = Inr \<lparr>messages =
             [ai_turn input_relay
                (''An error occurred: The model '' @ dquote @ ''openai/gpt-4o'' @ dquote
                 @ '' is currently unavailable via OpenRouter (No providers). Please select a different model.'')
                None None]\<rparr>
   \<and> trace (snd (runAutonomousAgent world_relay_404 input_relay))
       = [RouteCall ''hello'', MemoryCall, RelayFetch ''openai/gpt-4o'']
   \<and> sink (snd (runAutonomousAgent world_relay_404 input_relay)) = []"
  by code_simp

text \<open>For a relay model the choice of the generator never takes the fallback branch.\<close>

lemma simple_generator_relay:
  "\<not> isNative s \<Longrightarrow>
   simple_generator w h s
     = (Inr (RelayGen (openRouterKey s) (model_var s) (map (\<lambda>m. (role m, content_text m)) h)
               (systemPrompt s), False), s)"
  by (simp add: simple_generator_def streamOpenRouter_def)


subsection \<open>Cancellation\<close>






subsection \<open>The directive scan\<close>



subsection \<open>The bare \<open><THINK>\<close> tag\<close>

text \<open>
  Claim C8, as the code has it. When the text of an iteration contains \<open><THINK>\<close>, the
  closed \<open><THINK>\<close> regex does not match and no DEEP or SEARCH directive matches, the
  SIMPLE handler continues with the action THINK and, as the new prompt, the value of the
  handler's variable \<open>prompt\<close>. That variable is set before the loop, to the user's
  prompt or, for a prompt with a YouTube link, to the rewritten query, and no handler
  assigns it.
\<close>

theorem think_fallback:
  "(deepMatch g = None \<and> searchMatch g = None \<and> str_match g (tag_rx ''THINK'') = None
      \<and> str_includes g ''<THINK>''
     \<longrightarrow> fst (simple_finish i g s) = Continue
         \<and> currentAction (snd (simple_finish i g s)) = THINK
         \<and> currentPrompt (snd (simple_finish i g s)) = prompt_var s)
   \<and> (\<forall>s0 s1. try_setup w i s0 = (None, s1) \<longrightarrow>
         prompt_var s1 = (case youtube_rewrite (prompt i) of Some q \<Rightarrow> q | None \<Rightarrow> prompt i))
   \<and> (\<forall>out s'. switch_action w i s = (out, s') \<longrightarrow> prompt_var s' = prompt_var s)"
proof (intro conjI impI allI)
  assume "deepMatch g = None \<and> searchMatch g = None \<and> str_match g (tag_rx ''THINK'') = None
      \<and> str_includes g ''<THINK>''"
  then have sc: "scan_directives (prompt_var s) g = Some (THINK, prompt_var s)"
    by (simp add: scan_think_bare)
  show "fst (simple_finish i g s) = Continue" using sc by (simp add: simple_finish_def)
  show "currentAction (snd (simple_finish i g s)) = THINK" using sc by (simp add: simple_finish_def)
  show "currentPrompt (snd (simple_finish i g s)) = prompt_var s" using sc by (simp add: simple_finish_def)
next
  fix s0 s1 assume "try_setup w i s0 = (None, s1)"
  then show "prompt_var s1 = (case youtube_rewrite (prompt i) of Some q \<Rightarrow> q | None \<Rightarrow> prompt i)"
    by (simp add: try_setup_prompt_var)
next
  fix out s' assume "switch_action w i s = (out, s')"
  then show "prompt_var s' = prompt_var s"
    by (intro handled_prompt_var[of i out]) (rule switch_action_handled)
qed

text \<open>A bare tag in a text, the variable after the set-up of a prompt with a link, and a handler that keeps it.\<close>

theorem think_fallback_witness:
  "str_includes ''Hm <THINK> wait'' ''<THINK>''
   \<and> currentAction (snd (simple_finish input0 ''Hm <THINK> wait'' (initial_state\<lparr>prompt_var := ''hello''\<rparr>))) = THINK
   \<and> currentPrompt (snd (simple_finish input0 ''Hm <THINK> wait'' (initial_state\<lparr>prompt_var := ''hello''\<rparr>))) = ''hello''
   \<and> prompt_var (snd (try_setup world0 input_video initial_state))
       = ''Find details for YouTube Video ID: dQw4w9WgXcQ. Title, Channel, and Summary. URL: youtu.be/dQw4w9WgXcQ''
   \<and> prompt_var (snd (switch_action world0 input0 search_state)) = prompt_var search_state"
proof -
  let ?g = "''Hm <THINK> wait''"
  let ?s = "initial_state\<lparr>prompt_var := ''hello''\<rparr>"
  note th = think_fallback[of ?g input_video ?s world0]
  note th0 = think_fallback[of ?g input0 ?s world0]
  note th1 = think_fallback[of ?g input0 search_state world0]
  have h: "deepMatch ?g = None \<and> searchMatch ?g = None \<and> str_match ?g (tag_rx ''THINK'') = None
      \<and> str_includes ?g ''<THINK>''" by code_simp
  with th0 have a: "currentAction (snd (simple_finish input0 ?g ?s)) = THINK"
    "currentPrompt (snd (simple_finish input0 ?g ?s)) = prompt_var ?s" by blast+
  have "fst (try_setup world0 input_video initial_state) = None" by code_simp
  then have "try_setup world0 input_video initial_state = (None, snd (try_setup world0 input_video initial_state))"
    by (metis prod.collapse)
  with th have "prompt_var (snd (try_setup world0 input_video initial_state))
      = (case youtube_rewrite (prompt input_video) of Some q \<Rightarrow> q | None \<Rightarrow> prompt input_video)"
    by blast
  moreover have "(case youtube_rewrite (prompt input_video) of Some q \<Rightarrow> q | None \<Rightarrow> prompt input_video)
      = ''Find details for YouTube Video ID: dQw4w9WgXcQ. Title, Channel, and Summary. URL: youtu.be/dQw4w9WgXcQ''"
    by code_simp
  ultimately have b: "prompt_var (snd (try_setup world0 input_video initial_state))
      = ''Find details for YouTube Video ID: dQw4w9WgXcQ. Title, Channel, and Summary. URL: youtu.be/dQw4w9WgXcQ''"
    by simp
  from th1 have c: "prompt_var (snd (switch_action world0 input0 search_state)) = prompt_var search_state"
    by (metis prod.collapse)
  from h a b c show ?thesis by simp
qed

text \<open>
  Claim C8 as written fails for a prompt with a YouTube link: after the search and a
  synthesis that opens a \<open><THINK>\<close> tag, the prompt of the THINK action is the rewritten
  query, not the prompt the user sent.
\<close>

theorem think_fallback_counterexample:
  "prompt input_video = ''summarize https://youtu.be/dQw4w9WgXcQ''
   \<and> trace (snd (runAutonomousAgent world_bare_think input_video))
       = [RouteCall ''Find details for YouTube Video ID: dQw4w9WgXcQ. Title, Channel, and Summary. URL: youtu.be/dQw4w9WgXcQ'',
          MemoryCall,
          ResearchCall ''Find details for YouTube Video ID: dQw4w9WgXcQ. Title, Channel, and Summary. URL: youtu.be/dQw4w9WgXcQ'',
          NativeStreamCall ''gemini-2.5-flash'', ThinkingCountCall, NativeStreamCall ''gemini-2.5-flash'']
   \<and> currentAction (snd (runAutonomousAgent world_bare_think input_video)) = THINK
   \<and> currentPrompt (snd (runAutonomousAgent world_bare_think input_video))
       = ''Find details for YouTube Video ID: dQw4w9WgXcQ. Title, Channel, and Summary. URL: youtu.be/dQw4w9WgXcQ''"
  by code_simp


subsection \<open>The search pipeline\<close>

text \<open>
  Claim C6. The handler of SEARCH and DEEP_SEARCH never returns a turn itself. It calls
  the research operation with the current prompt, and when that returns an answer it
  continues with the action SIMPLE and the synthesis prompt: the query, the line
  \<open>SEARCH CONTEXT:\<close> followed by the answer, and the instruction to cite with \<open>[1]\<close>,
  \<open>[2]\<close>. A SIMPLE iteration whose text is \<open><SEARCH>cats</SEARCH>\<close> continues with the
  action SEARCH and the prompt \<open>cats\<close>.
\<close>

theorem search_pipeline:
  "(\<forall>r. fst (case_SEARCH w i s) \<noteq> Return r)
   \<and> (currentAction s = SEARCH \<or> currentAction s = DEEP_SEARCH
        \<longrightarrow> switch_action w i s = case_SEARCH w i s)
   \<and> (\<forall>result. snd (deepResearch w (tick s) (currentPrompt s)) = Inr result \<longrightarrow>
         fst (case_SEARCH w i s) = Continue
         \<and> trace (snd (case_SEARCH w i s)) = trace s @ [ResearchCall (currentPrompt s)]
         \<and> currentAction (snd (case_SEARCH w i s)) = SIMPLE
         \<and> currentPrompt (snd (case_SEARCH w i s))
             = ''USER QUERY: '' @ currentPrompt s @ nl @ nl @ ''SEARCH CONTEXT:'' @ nl
               @ answer result @ nl @ nl
               @ ''INSTRUCTIONS: Synthesize a comprehensive answer to the user'' @ [CHR 0x27]
               @ ''s query based ONLY on the provided search context. Cite sources using [1], [2] format where appropriate.''
         \<and> str_includes (currentPrompt (snd (case_SEARCH w i s))) ''SEARCH CONTEXT:'')
   \<and> fst (simple_finish i ''<SEARCH>cats</SEARCH>'' s) = Continue
   \<and> currentAction (snd (simple_finish i ''<SEARCH>cats</SEARCH>'' s)) = SEARCH
   \<and> currentPrompt (snd (simple_finish i ''<SEARCH>cats</SEARCH>'' s)) = ''cats''"
proof -
  have inc: "str_includes (a @ ''SEARCH CONTEXT:'' @ b) ''SEARCH CONTEXT:''" for a b :: string
    by (induction a) (auto simp: str_startsWith_def)
  have "str_includes (synthesisPrompt q c) ''SEARCH CONTEXT:''" for q c
    using inc[of "''USER QUERY: '' @ q @ nl @ nl"] by (simp add: synthesisPrompt_def)
  then show ?thesis
    using case_SEARCH_ok[of w s _ i] case_SEARCH_not_Return[of w i s]
    by (auto simp: simple_finish_search_cats switch_action_def synthesisPrompt_def)
qed

text \<open>
  The handler on a search for \<open>cats\<close>, and a whole invocation: the provider asks for the
  search, the research is called with \<open>cats\<close>, and the synthesis is streamed.
\<close>

theorem search_pipeline_witness:
  "currentAction search_state = SEARCH
   \<and> snd (deepResearch world0 (tick search_state) (currentPrompt search_state))
       = Inr \<lparr>answer = ''ANSWER'', sources = []\<rparr>
   \<and> fst (switch_action world0 input0 search_state) = Continue
   \<and> currentAction (snd (switch_action world0 input0 search_state)) = SIMPLE
   \<and> str_includes (currentPrompt (snd (switch_action world0 input0 search_state))) ''SEARCH CONTEXT:''
   \<and> trace (snd (runAutonomousAgent world_cats input0))
       = [RouteCall ''hello'', MemoryCall, NativeStreamCall ''gemini-2.5-flash'',
          ResearchCall ''cats'', NativeStreamCall ''gemini-2.5-flash'']
   \<and> fst (runAutonomousAgent world_cats input0)
       = Inr \<lparr>messages = [ai_turn input0 ''<SEARCH>cats</SEARCH>Cats purr [1].'' None None]\<rparr>"
proof -
  note th = search_pipeline[of world0 input0 search_state]
  have a: "currentAction search_state = SEARCH" by (simp add: search_state_def)
  have b: "snd (deepResearch world0 (tick search_state) (currentPrompt search_state))
       = Inr \<lparr>answer = ''ANSWER'', sources = []\<rparr>" by (simp add: world0_def)
  from th a have sw: "switch_action world0 input0 search_state = case_SEARCH world0 input0 search_state"
    by blast
  from th b have "fst (case_SEARCH world0 input0 search_state) = Continue"
    "currentAction (snd (case_SEARCH world0 input0 search_state)) = SIMPLE"
    "str_includes (currentPrompt (snd (case_SEARCH world0 input0 search_state))) ''SEARCH CONTEXT:''"
    by blast+
  with sw have c: "fst (switch_action world0 input0 search_state) = Continue"
    "currentAction (snd (switch_action world0 input0 search_state)) = SIMPLE"
    "str_includes (currentPrompt (snd (switch_action world0 input0 search_state))) ''SEARCH CONTEXT:''"
    by simp_all
  have d: "trace (snd (runAutonomousAgent world_cats input0))
       = [RouteCall ''hello'', MemoryCall, NativeStreamCall ''gemini-2.5-flash'',
          ResearchCall ''cats'', NativeStreamCall ''gemini-2.5-flash'']" by code_simp
  have e: "fst (runAutonomousAgent world_cats input0)
       = Inr \<lparr>messages = [ai_turn input0 ''<SEARCH>cats</SEARCH>Cats purr [1].'' None None]\<rparr>"
    by code_simp
  from a b c d e show ?thesis by simp
qed


subsection \<open>YouTube links\<close>






subsection \<open>The citations\<close>




end
